theory Spec2Isabelle
  imports Complex_Main "HOL-Library.Word" "HOL-Library.Signed_Division"
begin

unbundle bit_operations_syntax

section \<open>SunCast: solar calculator and DEM driver\<close>

text \<open>
  The development follows the two C++ translation units of the repository:
  \<^verbatim>\<open>SolarCalculator.cpp\<close> (the NOAA sunrise/sunset equations) and
  \<^verbatim>\<open>ProcessDEM.cpp\<close> (the raster driver with its two output modes).

  Numbers.  A C++ \<^verbatim>\<open>double\<close> that is only computed with is idealised as a
  \<^typ>\<open>real\<close>: rounding is ignored, \<^verbatim>\<open>M_PI\<close> is \<^term>\<open>pi\<close>, and the only
  non-number kept is the NaN of an input elevation, which the driver tests for.  A
  \<^verbatim>\<open>double\<close> whose bytes are written verbatim (the geotransform) keeps its 64-bit
  pattern.  C++ \<^verbatim>\<open>int\<close> is \<^typ>\<open>int\<close> with truncating division (\<open>sdiv\<close>,
  \<open>smod\<close>); overflow of \<^verbatim>\<open>int\<close> is outside the model.

  Two places where the idealisation and the machine differ are excluded by hypotheses of
  the results about the calculator: the square root of a negative elevation (NaN in the
  source), by \<open>0 \<le> elevation\<close>; and a denominator that is exactly 0, such as the cosine
  of latitude 90 (the quotient of the model is then 0, while the source, whose
  \<^verbatim>\<open>M_PI / 2\<close> is not a zero of the cosine, divides by a tiny number), by
  \<open>quotients_defined\<close>.
\<close>

subsection \<open>SolarCalculator.cpp\<close>

record SolarCalculator =
  timezoneOffset :: real

definition M_PI :: real where
  "M_PI = pi"

definition SOLAR_DEPRESSION :: real where
  "SOLAR_DEPRESSION = 0.833"

definition julianDay :: "int \<Rightarrow> int \<Rightarrow> int \<Rightarrow> real" where
  "julianDay year0 month0 day =
     (let year = (if month0 \<le> 2 then year0 - 1 else year0);
          month = (if month0 \<le> 2 then month0 + 12 else month0);
          A = year sdiv 100;
          B = 2 - A + (A sdiv 4)
      in real_of_int \<lfloor>365.25 * real_of_int (year + 4716)\<rfloor> +
         real_of_int \<lfloor>30.6001 * real_of_int (month + 1)\<rfloor> +
         real_of_int day + real_of_int B - 1524.5)"

definition julianCentury :: "real \<Rightarrow> real" where
  "julianCentury jd = (jd - 2451545.0) / 36525.0"

text \<open>The two normalisation loops of \<^verbatim>\<open>sunGeomMeanLongitude\<close>.\<close>

function sub360 :: "real \<Rightarrow> real" where
  "sub360 L0 = (if L0 > 360.0 then sub360 (L0 - 360.0) else L0)"
  by pat_completeness auto
termination
proof (relation "measure (\<lambda>L0. nat \<lfloor>L0\<rfloor>)")
  show "wf (measure (\<lambda>L0::real. nat \<lfloor>L0\<rfloor>))" by simp
next
  fix L0 :: real
  assume "360.0 < L0"
  then have "360 \<le> \<lfloor>L0\<rfloor>" by linarith
  moreover have "\<lfloor>L0 - 360.0\<rfloor> = \<lfloor>L0\<rfloor> - 360" by linarith
  ultimately show "(L0 - 360.0, L0) \<in> measure (\<lambda>L0. nat \<lfloor>L0\<rfloor>)" by simp
qed

function add360 :: "real \<Rightarrow> real" where
  "add360 L0 = (if L0 < 0.0 then add360 (L0 + 360.0) else L0)"
  by pat_completeness auto
termination
proof (relation "measure (\<lambda>L0. nat \<lceil>- L0\<rceil>)")
  show "wf (measure (\<lambda>L0::real. nat \<lceil>- L0\<rceil>))" by simp
next
  fix L0 :: real
  assume "L0 < 0.0"
  then have "1 \<le> \<lceil>- L0\<rceil>" by linarith
  moreover have "\<lceil>- (L0 + 360.0)\<rceil> = \<lceil>- L0\<rceil> - 360" by linarith
  ultimately show "(L0 + 360.0, L0) \<in> measure (\<lambda>L0. nat \<lceil>- L0\<rceil>)" by simp
qed

definition sunGeomMeanLongitude :: "real \<Rightarrow> real" where
  "sunGeomMeanLongitude t =
     (let L0 = 280.46646 + t * (36000.76983 + t * 0.0003032)
      in add360 (sub360 L0))"

definition sunGeomMeanAnomaly :: "real \<Rightarrow> real" where
  "sunGeomMeanAnomaly t = 357.52911 + t * (35999.05029 - 0.0001537 * t)"

definition earthOrbitEccentricity :: "real \<Rightarrow> real" where
  "earthOrbitEccentricity t = 0.016708634 - t * (0.000042037 + 0.0000001267 * t)"

definition sunEquationOfCenter :: "real \<Rightarrow> real" where
  "sunEquationOfCenter t =
     (let m = sunGeomMeanAnomaly t;
          mrad = m * M_PI / 180.0;
          sinm = sin mrad;
          sin2m = sin (2.0 * mrad);
          sin3m = sin (3.0 * mrad)
      in sinm * (1.914602 - t * (0.004817 + 0.000014 * t)) +
         sin2m * (0.019993 - 0.000101 * t) +
         sin3m * 0.000289)"

definition sunTrueLongitude :: "real \<Rightarrow> real" where
  "sunTrueLongitude t = sunGeomMeanLongitude t + sunEquationOfCenter t"

definition sunApparentLongitude :: "real \<Rightarrow> real" where
  "sunApparentLongitude t =
     (let o' = sunTrueLongitude t
      in o' - 0.00569 - 0.00478 * sin ((125.04 - 1934.136 * t) * M_PI / 180.0))"

definition meanObliquityOfEcliptic :: "real \<Rightarrow> real" where
  "meanObliquityOfEcliptic t =
     23.0 + (26.0 + ((21.448 - t * (46.815 + t * (0.00059 - t * 0.001813)))) / 60.0) / 60.0"

definition obliquityCorrection :: "real \<Rightarrow> real" where
  "obliquityCorrection t =
     (let e0 = meanObliquityOfEcliptic t;
          omega = 125.04 - 1934.136 * t
      in e0 + 0.00256 * cos (omega * M_PI / 180.0))"

definition sunDeclination :: "real \<Rightarrow> real" where
  "sunDeclination t =
     (let e = obliquityCorrection t;
          lambda = sunApparentLongitude t;
          sint = sin (e * M_PI / 180.0) * sin (lambda * M_PI / 180.0)
      in arcsin sint * 180.0 / M_PI)"

definition equationOfTime :: "real \<Rightarrow> real" where
  "equationOfTime t =
     (let epsilon = obliquityCorrection t;
          l0 = sunGeomMeanLongitude t;
          e = earthOrbitEccentricity t;
          m = sunGeomMeanAnomaly t;
          y0 = tan ((epsilon / 2.0) * M_PI / 180.0);
          y = y0 * y0;
          sin2l0 = sin (2.0 * l0 * M_PI / 180.0);
          sinm = sin (m * M_PI / 180.0);
          cos2l0 = cos (2.0 * l0 * M_PI / 180.0);
          sin4l0 = sin (4.0 * l0 * M_PI / 180.0);
          sin2m = sin (2.0 * m * M_PI / 180.0);
          Etime = y * sin2l0 - 2.0 * e * sinm + 4.0 * e * y * sinm * cos2l0 -
                  0.5 * y * y * sin4l0 - 1.25 * e * e * sin2m
      in 4.0 * Etime * 180.0 / M_PI)"

definition hourAngleSunrise :: "real \<Rightarrow> real \<Rightarrow> real \<Rightarrow> real" where
  "hourAngleSunrise latitude declination elevation =
     (let latRad = latitude * M_PI / 180.0;
          declRad = declination * M_PI / 180.0;
          elevationCorrection = - 2.076 * sqrt elevation / 60.0;
          zenith = 90.0 + SOLAR_DEPRESSION + elevationCorrection;
          cosHA = (cos (zenith * M_PI / 180.0) / (cos latRad * cos declRad)) -
                  tan latRad * tan declRad
      in if cosHA > 1.0 then - 1.0
         else if cosHA < - 1.0 then - 2.0
         else arccos cosHA * 180.0 / M_PI)"

text \<open>The two range loops at the end of \<^verbatim>\<open>calculateSolarTime\<close>.\<close>

function add24 :: "real \<Rightarrow> real" where
  "add24 solarTime = (if solarTime < 0.0 then add24 (solarTime + 24.0) else solarTime)"
  by pat_completeness auto
termination
proof (relation "measure (\<lambda>s. nat \<lceil>- s\<rceil>)")
  show "wf (measure (\<lambda>s::real. nat \<lceil>- s\<rceil>))" by simp
next
  fix solarTime :: real
  assume "solarTime < 0.0"
  then have "1 \<le> \<lceil>- solarTime\<rceil>" by linarith
  moreover have "\<lceil>- (solarTime + 24.0)\<rceil> = \<lceil>- solarTime\<rceil> - 24" by linarith
  ultimately show "(solarTime + 24.0, solarTime) \<in> measure (\<lambda>s. nat \<lceil>- s\<rceil>)" by simp
qed

function sub24 :: "real \<Rightarrow> real" where
  "sub24 solarTime = (if solarTime \<ge> 24.0 then sub24 (solarTime - 24.0) else solarTime)"
  by pat_completeness auto
termination
proof (relation "measure (\<lambda>s. nat \<lfloor>s\<rfloor>)")
  show "wf (measure (\<lambda>s::real. nat \<lfloor>s\<rfloor>))" by simp
next
  fix solarTime :: real
  assume "24.0 \<le> solarTime"
  then have "24 \<le> \<lfloor>solarTime\<rfloor>" by linarith
  moreover have "\<lfloor>solarTime - 24.0\<rfloor> = \<lfloor>solarTime\<rfloor> - 24" by linarith
  ultimately show "(solarTime - 24.0, solarTime) \<in> measure (\<lambda>s. nat \<lfloor>s\<rfloor>)" by simp
qed

definition calculateSolarTime ::
  "SolarCalculator \<Rightarrow> real \<Rightarrow> real \<Rightarrow> real \<Rightarrow> int \<Rightarrow> int \<Rightarrow> int \<Rightarrow> bool \<Rightarrow> real" where
  "calculateSolarTime this latitude longitude elevation year month day isSunrise =
     (let jd = julianDay year month day;
          t = julianCentury jd;
          eqTime = equationOfTime t;
          declination = sunDeclination t;
          ha = hourAngleSunrise latitude declination elevation
      in if ha < 0.0 then - 9999.0
         else
           let solarNoon = (720.0 - 4.0 * longitude - eqTime) / 60.0;
               solarTime = (if isSunrise then solarNoon - ha * 4.0 / 60.0
                            else solarNoon + ha * 4.0 / 60.0);
               solarTime = solarTime + timezoneOffset this
           in sub24 (add24 solarTime))"

definition calculateSunrise ::
  "SolarCalculator \<Rightarrow> real \<Rightarrow> real \<Rightarrow> real \<Rightarrow> int \<Rightarrow> int \<Rightarrow> int \<Rightarrow> real" where
  "calculateSunrise this latitude longitude elevation year month day =
     calculateSolarTime this latitude longitude elevation year month day True"

definition calculateSunset ::
  "SolarCalculator \<Rightarrow> real \<Rightarrow> real \<Rightarrow> real \<Rightarrow> int \<Rightarrow> int \<Rightarrow> int \<Rightarrow> real" where
  "calculateSunset this latitude longitude elevation year month day =
     calculateSolarTime this latitude longitude elevation year month day False"

text \<open>
  The inputs at which every quotient of the calculator has a denominator other than 0: the
  cosines of latitude and declination in \<^verbatim>\<open>hourAngleSunrise\<close>, and the cosine under
  the tangent of \<^verbatim>\<open>equationOfTime\<close>.  At these inputs, and for an elevation that is
  not negative, the functions above compute in the reals what the source computes in
  \<^verbatim>\<open>double\<close>.
\<close>

definition quotients_defined :: "real \<Rightarrow> real \<Rightarrow> bool" where
  "quotients_defined latitude t \<longleftrightarrow>
     cos (latitude * M_PI / 180) \<noteq> 0 \<and>
     cos (sunDeclination t * M_PI / 180) \<noteq> 0 \<and>
     cos ((obliquityCorrection t / 2) * M_PI / 180) \<noteq> 0"

subsection \<open>The formulas of the specification\<close>

text \<open>
  Written from the words of the specification (section 4.1, steps 3 to 5), to be compared
  with the functions translated from the source.
\<close>

definition spec_zenith :: "real \<Rightarrow> real" where
  "spec_zenith elevation = 90 + 0.833 - 2.076 * sqrt elevation / 60"

definition spec_cosHA :: "real \<Rightarrow> real \<Rightarrow> real \<Rightarrow> real" where
  "spec_cosHA lat decl elevation =
     cos (spec_zenith elevation * pi / 180) / (cos (lat * pi / 180) * cos (decl * pi / 180)) -
     tan (lat * pi / 180) * tan (decl * pi / 180)"

definition spec_noon :: "real \<Rightarrow> real \<Rightarrow> real" where
  "spec_noon longitude eqTimeMinutes = (720 - 4 * longitude - eqTimeMinutes) / 60"

definition spec_normalize24 :: "real \<Rightarrow> real" where
  "spec_normalize24 x = x - 24 * real_of_int \<lfloor>x / 24\<rfloor>"

definition spec_hourAngle :: "real \<Rightarrow> real \<Rightarrow> real \<Rightarrow> real" where
  "spec_hourAngle lat decl elevation = arccos (spec_cosHA lat decl elevation) * 180 / pi"

subsection \<open>ProcessDEM.cpp: values and the GDAL interface\<close>

text \<open>
  A \<^verbatim>\<open>float\<close> elevation is a number or NaN.  \<open>isnan\<close> and \<open>feq\<close> are
  \<^verbatim>\<open>std::isnan\<close> and the C++ \<^verbatim>\<open>==\<close>, which is false as soon as one side is NaN.
  \<open>float_value\<close> is the number as the \<^verbatim>\<open>double\<close> passed to the calculator; it says
  nothing about NaN, and both modes test \<open>isnan\<close> before they use it.
\<close>

datatype cfloat = NaN | Val (float_value: real)

fun isnan :: "cfloat \<Rightarrow> bool" where
  "isnan NaN = True"
| "isnan (Val x) = False"

fun feq :: "cfloat \<Rightarrow> cfloat \<Rightarrow> bool" where
  "feq (Val x) (Val y) = (x = y)"
| "feq a b = False"

definition NODATA_VALUE :: real where
  "NODATA_VALUE = - 9999.0"

text \<open>
  The value of an IEEE-754 binary64 pattern (sign, 11 exponent bits, 52 fraction bits).
  The geotransform is kept as six such patterns, because the streaming header writes their
  bytes; \<open>pixelToGeo\<close> computes with their values.  Infinities and NaN among the
  coefficients are outside the model.
\<close>

definition double_val :: "64 word \<Rightarrow> real" where
  "double_val w =
     (let s = (if bit w 63 then - 1 else 1);
          e = unat (take_bit 11 (drop_bit 52 w));
          m = unat (take_bit 52 w)
      in if e = 0 then s * real m * 2 powi (- 1074)
         else s * (2 ^ 52 + real m) * 2 powi (int e - 1075))"

text \<open>
  What the code uses of an opened \<^verbatim>\<open>GDALDataset\<close>.  \<open>RasterIO_Read\<close> is
  \<^verbatim>\<open>GetRasterBand(1)->RasterIO(GF_Read, xoff, yoff, xsize, ysize, ...)\<close>: \<open>None\<close> is
  an error code, and a window read gives the value at each buffer index.  \<open>NoDataValue\<close> is
  the band's no-data value as the \<^verbatim>\<open>float\<close> the code casts it to.  Sizes, offsets,
  pixel indices and counters, which are never negative in the source, are natural numbers,
  and \<^verbatim>\<open>/\<close>, \<^verbatim>\<open>%\<close> on them are \<open>div\<close>, \<open>mod\<close>.
\<close>

record GDALDataset =
  RasterXSize :: nat
  RasterYSize :: nat
  GeoTransform :: "64 word list"
  ProjectionRef :: string
  NoDataValue :: cfloat
  RasterIO_Read :: "nat \<Rightarrow> nat \<Rightarrow> nat \<Rightarrow> nat \<Rightarrow> (nat \<Rightarrow> cfloat) option"

datatype create_outcome = NoDriver | CreateFailed | Created

text \<open>
  The outside world of one run: which paths open, whether the output can be created, and
  which tile writes succeed.
\<close>

record gdal_env =
  GDALOpen :: "string \<Rightarrow> GDALDataset option"
  Create :: "string \<Rightarrow> create_outcome"
  RasterIO_Write :: "nat \<Rightarrow> nat \<Rightarrow> bool"

text \<open>
  The calculator object the driver calls, as the pair of its two public methods: the
  driver's own control flow is then separate from the astronomy, and a pixel for which
  the calculator is not called is one whose result does not depend on it.
\<close>

record calculator =
  calcSunrise :: "real \<Rightarrow> real \<Rightarrow> real \<Rightarrow> int \<Rightarrow> int \<Rightarrow> int \<Rightarrow> real"
  calcSunset :: "real \<Rightarrow> real \<Rightarrow> real \<Rightarrow> int \<Rightarrow> int \<Rightarrow> int \<Rightarrow> real"

definition solarCalculator :: "real \<Rightarrow> calculator" where
  "solarCalculator tz =
     \<lparr>calcSunrise = calculateSunrise \<lparr>timezoneOffset = tz\<rparr>,
      calcSunset = calculateSunset \<lparr>timezoneOffset = tz\<rparr>\<rparr>"

text \<open>
  The lines written to \<^verbatim>\<open>std::cerr\<close>, by what they report.  The banner and progress
  lines that raster mode prints to \<^verbatim>\<open>std::cout\<close> are left out.
\<close>

datatype message =
    ErrOpenInput string
  | ErrReadDEM
  | ErrNoDriver
  | ErrCreateOutput
  | ErrReadBlock nat nat
  | ErrWriteBlock nat nat
  | ProcessedDay nat int

definition pixelToGeo :: "64 word list \<Rightarrow> int \<Rightarrow> int \<Rightarrow> real \<times> real" where
  "pixelToGeo geoTransform pixelX pixelY =
     (let lon = double_val (geoTransform ! 0) + real_of_int pixelX * double_val (geoTransform ! 1) +
                real_of_int pixelY * double_val (geoTransform ! 2);
          lat = double_val (geoTransform ! 3) + real_of_int pixelX * double_val (geoTransform ! 4) +
                real_of_int pixelY * double_val (geoTransform ! 5)
      in (lon, lat))"

definition isLeapYear :: "int \<Rightarrow> bool" where
  "isLeapYear year \<longleftrightarrow> (year smod 4 = 0 \<and> year smod 100 \<noteq> 0) \<or> (year smod 400 = 0)"

definition daysInMonth :: "bool \<Rightarrow> int \<Rightarrow> int" where
  "daysInMonth isLeap m =
     (if m = 4 \<or> m = 6 \<or> m = 9 \<or> m = 11 then 30
      else if m = 2 then (if isLeap then 29 else 28)
      else 31)"

text \<open>
  The two nested \<^verbatim>\<open>for\<close> loops over months and days, which both modes contain: the
  body is run for \<open>m = 1, ..., 12\<close> and \<open>d = 1, ..., daysInMonth\<close>, in this order.
\<close>

definition forEachDay :: "bool \<Rightarrow> (int \<Rightarrow> int \<Rightarrow> 's \<Rightarrow> 's) \<Rightarrow> 's \<Rightarrow> 's" where
  "forEachDay isLeap body s0 =
     foldl (\<lambda>s m. foldl (\<lambda>s d. body m d s) s [1..daysInMonth isLeap m]) s0 [1..12]"

subsection \<open>Bytes written to the standard output\<close>

text \<open>
  \<^verbatim>\<open>std::cout.write(reinterpret_cast<const char*>(&v), sizeof v)\<close> on the little-endian
  machines the program is built for.
\<close>

definition le_bytes :: "nat \<Rightarrow> 'a::len word \<Rightarrow> 8 word list" where
  "le_bytes n w = map (\<lambda>k. ucast (drop_bit (8 * k) w)) [0..<n]"

definition write_int32 :: "int \<Rightarrow> 8 word list" where
  "write_int32 v = le_bytes 4 (word_of_int v :: 32 word)"

definition write_int16s :: "16 word list \<Rightarrow> 8 word list" where
  "write_int16s buf = concat (map (le_bytes 2) buf)"

definition write_doubles :: "64 word list \<Rightarrow> 8 word list" where
  "write_doubles ds = concat (map (le_bytes 8) ds)"

definition magic :: "8 word list" where
  "magic = map (\<lambda>c. of_nat (of_char c)) ''SOLAR''"

text \<open>\<^verbatim>\<open>std::round\<close> (halves away from zero) and the cast to \<^verbatim>\<open>int16_t\<close>.\<close>

definition cround :: "real \<Rightarrow> int" where
  "cround x = (if 0 \<le> x then \<lfloor>x + 1 / 2\<rfloor> else \<lceil>x - 1 / 2\<rceil>)"

definition to_int16 :: "int \<Rightarrow> 16 word" where
  "to_int16 v = word_of_int v"

subsection \<open>The data-parallel pixel pass\<close>

text \<open>
  \<^verbatim>\<open>#pragma omp parallel for schedule(static)\<close> over the pixel indices: the
  iterations are run in the order \<open>schedule\<close>.  One thread runs them in the order
  \<open>[0..<n]\<close>, which is what the two modes below use.  With several threads each thread
  runs its own chunk of indices in order, and \<open>schedule\<close> is an interleaving of the
  chunks: at each step some thread \<open>t\<close> that is not finished runs its next iteration.
\<close>

definition pixelPass :: "nat list \<Rightarrow> (nat \<Rightarrow> 'b \<Rightarrow> 'b) \<Rightarrow> 'b \<Rightarrow> 'b" where
  "pixelPass schedule body bufs = foldl (\<lambda>b i. body i b) bufs schedule"

inductive interleaving :: "nat list list \<Rightarrow> nat list \<Rightarrow> bool" where
  finished: "concat chunks = [] \<Longrightarrow> interleaving chunks []"
| step: "t < length chunks \<Longrightarrow> chunks ! t = i # rest \<Longrightarrow>
         interleaving (chunks[t := rest]) schedule \<Longrightarrow> interleaving chunks (i # schedule)"

code_pred interleaving .

subsection \<open>Streaming mode: \<^verbatim>\<open>DemProcessor::streamBinaryOutput\<close>\<close>

record stream_state =
  sunriseBuffer :: "16 word list"
  sunsetBuffer :: "16 word list"
  currentDayOfYear :: nat
  cout :: "8 word list list"
  cerr :: "message list"

definition streamPixel ::
  "calculator \<Rightarrow> 64 word list \<Rightarrow> nat \<Rightarrow> cfloat \<Rightarrow> (nat \<Rightarrow> cfloat) \<Rightarrow> int \<Rightarrow> int \<Rightarrow> int \<Rightarrow>
   nat \<Rightarrow> 16 word list \<times> 16 word list \<Rightarrow> 16 word list \<times> 16 word list" where
  "streamPixel calc geoTransform width demNodata demData year m d i bufs =
     (let elevation = demData i
      in if isnan elevation \<or> feq elevation demNodata \<or> feq elevation (Val 0.0)
         then ((fst bufs)[i := - 1], (snd bufs)[i := - 1])
         else
           let y = i div width;
               x = i mod width;
               (lon, lat) = pixelToGeo geoTransform (int x) (int y);
               sunrise = calcSunrise calc lat lon (float_value elevation) year m d;
               sunset = calcSunset calc lat lon (float_value elevation) year m d
           in ((fst bufs)[i := (if sunrise < 0 then - 1 else to_int16 (cround (sunrise * 60.0)))],
               (snd bufs)[i := (if sunset < 0 then - 1 else to_int16 (cround (sunset * 60.0)))]))"

text \<open>
  One iteration of the day loop: the pixel pass, then one block on the standard output
  (day index, sunrise array, sunset array) and the flush; every tenth day a progress line
  on the standard error.  \<open>cout\<close> lists the flushed units in order.
\<close>

definition streamDay ::
  "calculator \<Rightarrow> 64 word list \<Rightarrow> nat \<Rightarrow> nat \<Rightarrow> cfloat \<Rightarrow> (nat \<Rightarrow> cfloat) \<Rightarrow> int \<Rightarrow> int \<Rightarrow>
   int \<Rightarrow> int \<Rightarrow> stream_state \<Rightarrow> stream_state" where
  "streamDay calc geoTransform width totalPixels demNodata demData year daysInYear' m d st =
     (let currentDayOfYear' = currentDayOfYear st + 1;
          bufs = pixelPass [0..<totalPixels]
                   (streamPixel calc geoTransform width demNodata demData year m d)
                   (sunriseBuffer st, sunsetBuffer st);
          block = write_int32 (int currentDayOfYear') @
                  write_int16s (take totalPixels (fst bufs)) @
                  write_int16s (take totalPixels (snd bufs))
      in \<lparr>sunriseBuffer = fst bufs,
          sunsetBuffer = snd bufs,
          currentDayOfYear = currentDayOfYear',
          cout = cout st @ [block],
          cerr = (if currentDayOfYear' mod 10 = 0
                  then cerr st @ [ProcessedDay currentDayOfYear' daysInYear']
                  else cerr st)\<rparr>)"

text \<open>
  The whole operation, for a given calculator object: the result, the units flushed to
  the standard output and the lines of the standard error.  The two buffers come from
  \<^verbatim>\<open>new int16_t[totalPixels]\<close>; their first contents are never written out.
\<close>

definition streamWith ::
  "calculator \<Rightarrow> gdal_env \<Rightarrow> string \<Rightarrow> int \<Rightarrow> bool \<times> 8 word list list \<times> message list" where
  "streamWith calc env inputPath year =
     (case GDALOpen env inputPath of
        None \<Rightarrow> (False, [], [ErrOpenInput inputPath])
      | Some inputDataset \<Rightarrow>
          let width = RasterXSize inputDataset;
              height = RasterYSize inputDataset;
              totalPixels = width * height;
              geoTransform = GeoTransform inputDataset
          in case RasterIO_Read inputDataset 0 0 width height of
               None \<Rightarrow> (False, [], [ErrReadDEM])
             | Some demData \<Rightarrow>
                 let demNodata = NoDataValue inputDataset;
                     isLeap = isLeapYear year;
                     daysInYear' = (if isLeap then 366 else 365);
                     header = magic @ write_int32 (int width) @ write_int32 (int height) @
                              write_int32 daysInYear' @ write_doubles (take 6 geoTransform);
                     st0 = \<lparr>sunriseBuffer = replicate totalPixels 0,
                            sunsetBuffer = replicate totalPixels 0,
                            currentDayOfYear = 0,
                            cout = [header],
                            cerr = []\<rparr>;
                     st = forEachDay isLeap
                            (streamDay calc geoTransform width totalPixels demNodata demData
                               year daysInYear')
                            st0
                 in (True, cout st, cerr st))"

definition streamBinaryOutput ::
  "gdal_env \<Rightarrow> string \<Rightarrow> int \<Rightarrow> real \<Rightarrow> bool \<times> 8 word list list \<times> message list" where
  "streamBinaryOutput env inputPath year timezoneOffset' =
     streamWith (solarCalculator timezoneOffset') env inputPath year"

subsection \<open>Raster mode: \<^verbatim>\<open>DemProcessor::processDEM\<close>\<close>

fun to_string :: "nat \<Rightarrow> string" where
  "to_string n =
     (if n < 10 then [char_of (48 + n)] else to_string (n div 10) @ [char_of (48 + n mod 10)])"

record OutputDataset =
  od_path :: string
  od_width :: nat
  od_height :: nat
  od_numBands :: nat
  od_options :: "(string \<times> string) list"
  od_geoTransform :: "64 word list"
  od_projection :: string
  od_bands :: "(real \<times> string) list"

definition createOutputDataset ::
  "gdal_env \<Rightarrow> string \<Rightarrow> nat \<Rightarrow> nat \<Rightarrow> nat \<Rightarrow> 64 word list \<Rightarrow> string \<Rightarrow>
   message + OutputDataset" where
  "createOutputDataset env outputPath width height numBands geoTransform projection =
     (case Create env outputPath of
        NoDriver \<Rightarrow> Inl ErrNoDriver
      | CreateFailed \<Rightarrow> Inl ErrCreateOutput
      | Created \<Rightarrow>
          Inr \<lparr>od_path = outputPath,
               od_width = width,
               od_height = height,
               od_numBands = numBands,
               od_options = [(''COMPRESS'', ''LZW''), (''PREDICTOR'', ''2''), (''TILED'', ''YES''),
                             (''BLOCKXSIZE'', ''512''), (''BLOCKYSIZE'', ''512''),
                             (''BIGTIFF'', ''IF_NEEDED'')],
               od_geoTransform = geoTransform,
               od_projection = projection,
               od_bands = map (\<lambda>i. let day = (i - 1) div 2 + 1;
                                          isSunrise = (i mod 2 \<noteq> 0)
                                      in (NODATA_VALUE,
                                          ''Day '' @ to_string day @
                                          (if isSunrise then '' Sunrise'' else '' Sunset'')))
                              [1..<numBands + 1]\<rparr>)"

text \<open>
  What raster mode does to the outside world, in order: the output dataset it creates (with
  its metadata), every tile read, every tile write with the buffer handed to
  \<^verbatim>\<open>RasterIO\<close> and whether it succeeded, and the error messages.
\<close>

datatype event =
    Log message
  | CreateDataset OutputDataset
  | ReadBlock nat nat nat nat
  | WriteBlock nat nat nat nat "real list" bool

record dem_state =
  outputBlock :: "real list"
  processedBlocks :: nat
  events :: "event list"

definition blockXSize :: nat where
  "blockXSize = 512"

definition blockYSize :: nat where
  "blockYSize = 512"

text \<open>
  The body of the parallel loop over the pixels of one tile.  The output buffer is band
  sequential: band \<open>b\<close> of pixel \<open>i\<close> is at index
  \<open>b * (currentBlockX * currentBlockY) + i\<close>.
\<close>

definition rasterPixel ::
  "calculator \<Rightarrow> 64 word list \<Rightarrow> cfloat \<Rightarrow> int \<Rightarrow> bool \<Rightarrow> nat \<Rightarrow> nat \<Rightarrow> nat \<Rightarrow> nat \<Rightarrow> nat \<Rightarrow>
   (nat \<Rightarrow> cfloat) \<Rightarrow> nat \<Rightarrow> real list \<Rightarrow> real list" where
  "rasterPixel calc geoTransform demNodata year isLeap numBands x y currentBlockX currentBlockY
     demBlock i outputBlock' =
     (let localY = i div currentBlockX;
          localX = i mod currentBlockX;
          globalX = x + localX;
          globalY = y + localY;
          elevation = demBlock i
      in if isnan elevation \<or> feq elevation demNodata
         then foldl (\<lambda>ob b. ob[b * (currentBlockX * currentBlockY) + i := NODATA_VALUE])
                outputBlock' [0..<numBands]
         else
           let (lon, lat) = pixelToGeo geoTransform (int globalX) (int globalY)
           in snd (forEachDay isLeap
                (\<lambda>m d (currentDayOfYear', ob).
                   let currentDayOfYear' = currentDayOfYear' + 1;
                       sunrise = calcSunrise calc lat lon (float_value elevation) year m d;
                       sunset = calcSunset calc lat lon (float_value elevation) year m d;
                       sunriseBandIdx = (currentDayOfYear' - 1) * 2;
                       sunsetBandIdx = sunriseBandIdx + 1
                   in (currentDayOfYear',
                       ob[sunriseBandIdx * (currentBlockX * currentBlockY) + i := sunrise,
                          sunsetBandIdx * (currentBlockX * currentBlockY) + i := sunset]))
                (0::nat, outputBlock')))"

text \<open>
  The tile loops \<^verbatim>\<open>for (v = 0; v < bound; v += 512)\<close>, 512 being the value of both
  \<^verbatim>\<open>blockXSize\<close> and \<^verbatim>\<open>blockYSize\<close>.
\<close>

function forBlocks :: "nat \<Rightarrow> (nat \<Rightarrow> 's \<Rightarrow> 's) \<Rightarrow> nat \<Rightarrow> 's \<Rightarrow> 's" where
  "forBlocks bound body v s =
     (if v < bound then forBlocks bound body (v + 512) (body v s) else s)"
  by pat_completeness auto
termination
  by (relation "measure (\<lambda>(bound, body, v, s). bound - v)") auto

text \<open>
  One tile: the read (on an error: a message, and \<^verbatim>\<open>continue\<close>), the pixel pass, the
  write of all bands (on an error: a message), the block counter.
\<close>

definition processBlock ::
  "calculator \<Rightarrow> gdal_env \<Rightarrow> GDALDataset \<Rightarrow> int \<Rightarrow> nat \<Rightarrow> nat \<Rightarrow> dem_state \<Rightarrow> dem_state" where
  "processBlock calc env inputDataset year x y st =
     (let width = RasterXSize inputDataset;
          height = RasterYSize inputDataset;
          geoTransform = GeoTransform inputDataset;
          isLeap = isLeapYear year;
          daysInYear' = (if isLeap then 366 else 365);
          numBands = daysInYear' * 2;
          demNodata = NoDataValue inputDataset;
          currentBlockX = min blockXSize (width - x);
          currentBlockY = min blockYSize (height - y)
      in case RasterIO_Read inputDataset x y currentBlockX currentBlockY of
           None \<Rightarrow>
             st\<lparr>events := events st @
                   [ReadBlock x y currentBlockX currentBlockY, Log (ErrReadBlock x y)]\<rparr>
         | Some demBlock \<Rightarrow>
             let outputBlock' =
                   pixelPass [0..<currentBlockY * currentBlockX]
                     (rasterPixel calc geoTransform demNodata year isLeap numBands x y
                        currentBlockX currentBlockY demBlock)
                     (outputBlock st);
                 ok = RasterIO_Write env x y
             in st\<lparr>outputBlock := outputBlock',
                   processedBlocks := processedBlocks st + 1,
                   events := events st @
                     [ReadBlock x y currentBlockX currentBlockY,
                      WriteBlock x y currentBlockX currentBlockY
                        (take (numBands * (currentBlockX * currentBlockY)) outputBlock') ok] @
                     (if ok then [] else [Log (ErrWriteBlock x y)])\<rparr>)"

definition processWith ::
  "calculator \<Rightarrow> gdal_env \<Rightarrow> string \<Rightarrow> string \<Rightarrow> int \<Rightarrow> bool \<times> event list" where
  "processWith calc env inputPath outputPath year =
     (case GDALOpen env inputPath of
        None \<Rightarrow> (False, [Log (ErrOpenInput inputPath)])
      | Some inputDataset \<Rightarrow>
          let width = RasterXSize inputDataset;
              height = RasterYSize inputDataset;
              geoTransform = GeoTransform inputDataset;
              projection = ProjectionRef inputDataset;
              isLeap = isLeapYear year;
              daysInYear' = (if isLeap then 366 else 365);
              numBands = daysInYear' * 2
          in case createOutputDataset env outputPath width height numBands geoTransform
                    projection of
               Inl msg \<Rightarrow> (False, [Log msg])
             | Inr outputDataset \<Rightarrow>
                 let st0 = \<lparr>outputBlock = replicate (blockXSize * blockYSize * numBands) 0,
                            processedBlocks = 0,
                            events = [CreateDataset outputDataset]\<rparr>;
                     st = forBlocks height
                            (\<lambda>y. forBlocks width (\<lambda>x. processBlock calc env inputDataset year x y) 0)
                            0 st0
                 in (True, events st))"

definition processDEM ::
  "gdal_env \<Rightarrow> string \<Rightarrow> string \<Rightarrow> int \<Rightarrow> real \<Rightarrow> bool \<times> event list" where
  "processDEM env inputPath outputPath year timezoneOffset' =
     processWith (solarCalculator timezoneOffset') env inputPath outputPath year"

subsection \<open>Notions used to state the results\<close>

text \<open>
  These are not functions of the source; each is tied to the source's functions by a lemma
  before it is used in a result.  \<open>yearDates\<close> lists the (month, day) pairs in the order
  of the two nested loops; \<open>spec_daysInYear\<close> is the Gregorian rule of the
  specification; \<open>streamValues\<close> and \<open>rasterValue\<close> are what the bodies of the two
  parallel loops store for one pixel; \<open>streamHeader\<close> and \<open>dayBlock\<close> are the two kinds
  of unit on the standard output; \<open>tileOrigins\<close> lists the tiles in loop order, and
  \<open>tileOutline\<close> the events of one tile with the written buffer left out (\<open>outline\<close>);
  \<open>read_doubles\<close> reads little-endian 64-bit values back from bytes.
\<close>

definition yearDates :: "bool \<Rightarrow> (int \<times> int) list" where
  "yearDates isLeap = concat (map (\<lambda>m. map (Pair m) [1..daysInMonth isLeap m]) [1..12])"

definition spec_daysInYear :: "int \<Rightarrow> nat" where
  "spec_daysInYear year =
     (if (year mod 4 = 0 \<and> year mod 100 \<noteq> 0) \<or> year mod 400 = 0 then 366 else 365)"

definition streamValues ::
  "calculator \<Rightarrow> 64 word list \<Rightarrow> nat \<Rightarrow> cfloat \<Rightarrow> (nat \<Rightarrow> cfloat) \<Rightarrow> int \<Rightarrow> int \<Rightarrow> int \<Rightarrow>
   nat \<Rightarrow> 16 word \<times> 16 word" where
  "streamValues calc geoTransform width demNodata demData year m d i =
     (if isnan (demData i) \<or> feq (demData i) demNodata \<or> feq (demData i) (Val 0)
      then (- 1, - 1)
      else
        let lonlat = pixelToGeo geoTransform (int (i mod width)) (int (i div width));
            sunrise = calcSunrise calc (snd lonlat) (fst lonlat) (float_value (demData i)) year m d;
            sunset = calcSunset calc (snd lonlat) (fst lonlat) (float_value (demData i)) year m d
        in (if sunrise < 0 then - 1 else to_int16 (cround (sunrise * 60)),
            if sunset < 0 then - 1 else to_int16 (cround (sunset * 60))))"

definition dayBlock ::
  "calculator \<Rightarrow> 64 word list \<Rightarrow> nat \<Rightarrow> nat \<Rightarrow> cfloat \<Rightarrow> (nat \<Rightarrow> cfloat) \<Rightarrow> int \<Rightarrow>
   nat \<times> int \<times> int \<Rightarrow> 8 word list" where
  "dayBlock calc geoTransform width totalPixels demNodata demData year kmd =
     (case kmd of (k, m, d) \<Rightarrow>
        write_int32 (int k) @
        write_int16s (map (\<lambda>i. fst (streamValues calc geoTransform width demNodata demData year m d i))
                        [0..<totalPixels]) @
        write_int16s (map (\<lambda>i. snd (streamValues calc geoTransform width demNodata demData year m d i))
                        [0..<totalPixels]))"

definition streamHeader :: "nat \<Rightarrow> nat \<Rightarrow> int \<Rightarrow> 64 word list \<Rightarrow> 8 word list" where
  "streamHeader width height days geoTransform =
     magic @ write_int32 (int width) @ write_int32 (int height) @ write_int32 days @
     write_doubles geoTransform"

definition blockStarts :: "nat \<Rightarrow> nat list" where
  "blockStarts bound = map (\<lambda>k. 512 * k) [0..<(bound + 511) div 512]"

definition tileOrigins :: "nat \<Rightarrow> nat \<Rightarrow> (nat \<times> nat) list" where
  "tileOrigins width height =
     concat (map (\<lambda>y. map (\<lambda>x. (x, y)) (blockStarts width)) (blockStarts height))"

fun outline :: "event \<Rightarrow> event" where
  "outline (WriteBlock x y w h buf ok) = WriteBlock x y w h [] ok"
| "outline (Log msg) = Log msg"
| "outline (CreateDataset od) = CreateDataset od"
| "outline (ReadBlock x y w h) = ReadBlock x y w h"

definition tileOutline :: "gdal_env \<Rightarrow> GDALDataset \<Rightarrow> nat \<times> nat \<Rightarrow> event list" where
  "tileOutline env ds xy =
     (case xy of (x, y) \<Rightarrow>
        let bx = min 512 (RasterXSize ds - x);
            by = min 512 (RasterYSize ds - y)
        in case RasterIO_Read ds x y bx by of
             None \<Rightarrow> [ReadBlock x y bx by, Log (ErrReadBlock x y)]
           | Some demBlock \<Rightarrow>
               [ReadBlock x y bx by, WriteBlock x y bx by [] (RasterIO_Write env x y)] @
               (if RasterIO_Write env x y then [] else [Log (ErrWriteBlock x y)]))"

definition rasterValue ::
  "calculator \<Rightarrow> 64 word list \<Rightarrow> cfloat \<Rightarrow> int \<Rightarrow> bool \<Rightarrow> nat \<Rightarrow> nat \<Rightarrow> nat \<Rightarrow>
   (nat \<Rightarrow> cfloat) \<Rightarrow> nat \<Rightarrow> nat \<Rightarrow> real" where
  "rasterValue calc geoTransform demNodata year isLeap x y currentBlockX demBlock i b =
     (if isnan (demBlock i) \<or> feq (demBlock i) demNodata then NODATA_VALUE
      else
        let lonlat = pixelToGeo geoTransform (int (x + i mod currentBlockX))
                       (int (y + i div currentBlockX));
            md = yearDates isLeap ! (b div 2)
        in if even b
           then calcSunrise calc (snd lonlat) (fst lonlat) (float_value (demBlock i)) year (fst md) (snd md)
           else calcSunset calc (snd lonlat) (fst lonlat) (float_value (demBlock i)) year (fst md) (snd md))"

definition read_le :: "8 word list \<Rightarrow> 'a::len word" where
  "read_le bs = foldr (\<lambda>b acc. ucast b OR push_bit 8 acc) bs 0"

fun read_doubles :: "nat \<Rightarrow> 8 word list \<Rightarrow> 64 word list" where
  "read_doubles 0 bs = []"
| "read_doubles (Suc n) bs = read_le (take 8 bs) # read_doubles n (drop 8 bs)"

subsection \<open>Two concrete inputs\<close>

text \<open>
  A one-pixel raster whose only pixel carries the no-data value, in a world where every
  path opens and every write succeeds.
\<close>

definition nodata_pixel_dataset :: GDALDataset where
  "nodata_pixel_dataset =
     \<lparr>RasterXSize = 1, RasterYSize = 1,
      GeoTransform = [0, 0x3FF0000000000000, 0, 0, 0, 0xBFF0000000000000],
      ProjectionRef = ''EPSG:4326'',
      NoDataValue = Val (- 9999),
      RasterIO_Read = (\<lambda>xoff yoff xsize ysize. Some (\<lambda>i. Val (- 9999)))\<rparr>"

definition nodata_pixel_env :: gdal_env where
  "nodata_pixel_env =
     \<lparr>GDALOpen = (\<lambda>path. Some nodata_pixel_dataset),
      Create = (\<lambda>path. Created),
      RasterIO_Write = (\<lambda>x y. True)\<rparr>"

text \<open>
  A raster of two tiles (600 by 1 pixels) whose first tile cannot be read, in a world
  where no tile write succeeds and only \<open>dem.tif\<close> exists.
\<close>

definition two_tile_dataset :: GDALDataset where
  "two_tile_dataset =
     \<lparr>RasterXSize = 600, RasterYSize = 1,
      GeoTransform = [0, 0x3FF0000000000000, 0, 0, 0, 0xBFF0000000000000],
      ProjectionRef = ''EPSG:4326'',
      NoDataValue = Val (- 9999),
      RasterIO_Read = (\<lambda>xoff yoff xsize ysize.
                         if xoff = 0 then None else Some (\<lambda>i. Val (- 9999)))\<rparr>"

definition failing_env :: gdal_env where
  "failing_env =
     \<lparr>GDALOpen = (\<lambda>path. if path = ''dem.tif'' then Some two_tile_dataset else None),
      Create = (\<lambda>path. Created),
      RasterIO_Write = (\<lambda>x y. False)\<rparr>"

section \<open>Properties of the solar calculator\<close>

declare add24.simps [simp del] sub24.simps [simp del] add360.simps [simp del] sub360.simps [simp del]

subsection \<open>The range loops\<close>

lemma add24_eq: "add24 x = (if x < 0 then x - 24 * real_of_int \<lfloor>x / 24\<rfloor> else x)"
proof (induction x rule: add24.induct)
  case (1 x)
  show ?case
  proof (cases "x < 0")
    case False
    then show ?thesis by (simp add: add24.simps [of x])
  next
    case True
    have fl: "\<lfloor>(x + 24) / 24\<rfloor> = \<lfloor>x / 24\<rfloor> + 1"
    proof -
      have "(x + 24) / 24 = x / 24 + 1" by simp
      then have "\<lfloor>(x + 24) / 24\<rfloor> = \<lfloor>x / 24 + 1\<rfloor>" by (simp only:)
      then show ?thesis by simp
    qed
    show ?thesis
    proof (cases "x + 24 < 0")
      case True
      with 1 \<open>x < 0\<close> fl show ?thesis by (simp add: add24.simps [of x])
    next
      case False
      with \<open>x < 0\<close> have "\<lfloor>x / 24\<rfloor> = -1" by (simp add: floor_eq_iff)
      with 1 \<open>x < 0\<close> False show ?thesis by (simp add: add24.simps [of x])
    qed
  qed
qed

lemma sub24_eq: "0 \<le> x \<Longrightarrow> sub24 x = x - 24 * real_of_int \<lfloor>x / 24\<rfloor>"
proof (induction x rule: sub24.induct)
  case (1 x)
  show ?case
  proof (cases "24 \<le> x")
    case True
    have "(x - 24) / 24 = x / 24 - 1" by simp
    then have "\<lfloor>(x - 24) / 24\<rfloor> = \<lfloor>x / 24 - 1\<rfloor>" by (simp only:)
    then have fl: "\<lfloor>(x - 24) / 24\<rfloor> = \<lfloor>x / 24\<rfloor> - 1" by simp
    from True 1 fl show ?thesis by (simp add: sub24.simps [of x])
  next
    case False
    with 1 have "\<lfloor>x / 24\<rfloor> = 0" by (simp add: floor_eq_iff)
    with False show ?thesis by (simp add: sub24.simps [of x])
  qed
qed

lemma mod24_range: "0 \<le> x - 24 * real_of_int \<lfloor>x / 24\<rfloor> \<and> x - 24 * real_of_int \<lfloor>x / 24\<rfloor> < 24"
proof -
  have "real_of_int \<lfloor>x / 24\<rfloor> \<le> x / 24" "x / 24 < real_of_int \<lfloor>x / 24\<rfloor> + 1" by linarith+
  then show ?thesis by (simp add: field_simps)
qed

lemma normalize24: "sub24 (add24 x) = x - 24 * real_of_int \<lfloor>x / 24\<rfloor>"
proof (cases "x < 0")
  case True
  let ?y = "x - 24 * real_of_int \<lfloor>x / 24\<rfloor>"
  have y: "0 \<le> ?y" "?y < 24" using mod24_range [of x] by simp_all
  have "add24 x = ?y" using True by (simp add: add24_eq)
  moreover have "sub24 ?y = ?y" using y by (simp add: sub24.simps [of ?y])
  ultimately show ?thesis by simp
next
  case False
  then show ?thesis by (simp add: add24_eq sub24_eq)
qed

subsection \<open>Hour angle\<close>

lemma hourAngleSunrise_spec:
  "hourAngleSunrise lat decl elevation =
     (if spec_cosHA lat decl elevation > 1 then - 1
      else if spec_cosHA lat decl elevation < - 1 then - 2
      else arccos (spec_cosHA lat decl elevation) * 180 / pi)"
  by (simp add: hourAngleSunrise_def spec_cosHA_def spec_zenith_def M_PI_def
      SOLAR_DEPRESSION_def Let_def)

lemma hourAngleSunrise_neg_iff:
  "hourAngleSunrise lat decl elevation < 0 \<longleftrightarrow>
     spec_cosHA lat decl elevation > 1 \<or> spec_cosHA lat decl elevation < - 1"
proof (cases "spec_cosHA lat decl elevation > 1 \<or> spec_cosHA lat decl elevation < - 1")
  case True
  then show ?thesis by (auto simp: hourAngleSunrise_spec)
next
  case False
  then have "0 \<le> arccos (spec_cosHA lat decl elevation)"
    by (intro arccos_lbound) auto
  then have "0 \<le> arccos (spec_cosHA lat decl elevation) * 180 / pi" by simp
  with False show ?thesis by (simp add: hourAngleSunrise_spec)
qed

text \<open>
  Claim C1.  For every latitude and declination (with cosine other than 0, so that the
  quotients are defined) and every elevation \<open>\<ge> 0\<close>,
  \<^verbatim>\<open>hourAngleSunrise\<close> computes the zenith
  \<open>90 + 0.833 - 2.076 * sqrt elevation / 60\<close> degrees and
  \<open>cos HA = cos zenith / (cos lat * cos decl) - tan lat * tan decl\<close>; it returns
  \<open>-1\<close> above 1, \<open>-2\<close> below \<open>-1\<close>, and otherwise the arc cosine in
  degrees.
\<close>

theorem hourAngleSunrise_formula:
  assumes "0 \<le> elevation"
    and "cos (lat * pi / 180) \<noteq> 0" and "cos (decl * pi / 180) \<noteq> 0"
  shows "hourAngleSunrise lat decl elevation =
     (if spec_cosHA lat decl elevation > 1 then - 1
      else if spec_cosHA lat decl elevation < - 1 then - 2
      else arccos (spec_cosHA lat decl elevation) * 180 / pi)"
  by (rule hourAngleSunrise_spec)

lemma spec_cosHA_000: "spec_cosHA 0 0 0 = cos (90.833 * pi / 180)"
  by (simp add: spec_cosHA_def spec_zenith_def)

theorem hourAngleSunrise_formula_witness:
  "(0::real) \<le> 0 \<and> cos (0 * pi / 180) \<noteq> (0::real) \<and>
   spec_cosHA 0 0 0 = cos (90.833 * pi / 180) \<and> hourAngleSunrise 0 0 0 = 90.833"
proof -
  define z :: real where "z = 90.833 * pi / 180"
  have r: "0 \<le> z" "z \<le> pi" by (simp_all add: z_def)
  have ac: "arccos (cos z) = z"
    using r by (rule arccos_cos)
  have s: "spec_cosHA 0 0 0 = cos z" by (simp add: spec_cosHA_000 z_def)
  have "hourAngleSunrise 0 0 0 = arccos (cos z) * 180 / pi"
    using hourAngleSunrise_formula [of 0 0 0] cos_le_one [of z] cos_ge_minus_one [of z]
    by (simp add: s del: cos_le_one cos_ge_minus_one)
  then have "hourAngleSunrise 0 0 0 = z * 180 / pi" by (simp only: ac)
  then have "hourAngleSunrise 0 0 0 = 90.833" by (simp add: z_def)
  with s show ?thesis by (simp add: z_def)
qed

subsection \<open>Sunrise and sunset\<close>

lemma calculateSolarTime_no_event:
  assumes "hourAngleSunrise latitude (sunDeclination (julianCentury (julianDay year month day))) elevation < 0"
  shows "calculateSolarTime this latitude longitude elevation year month day isSunrise = - 9999"
  using assms by (simp add: calculateSolarTime_def Let_def)

lemma calculateSolarTime_occurs:
  assumes "\<not> hourAngleSunrise latitude (sunDeclination (julianCentury (julianDay year month day))) elevation < 0"
  shows "calculateSolarTime this latitude longitude elevation year month day isSunrise =
     spec_normalize24
       ((if isSunrise
         then spec_noon longitude (equationOfTime (julianCentury (julianDay year month day))) -
              hourAngleSunrise latitude (sunDeclination (julianCentury (julianDay year month day))) elevation * 4 / 60
         else spec_noon longitude (equationOfTime (julianCentury (julianDay year month day))) +
              hourAngleSunrise latitude (sunDeclination (julianCentury (julianDay year month day))) elevation * 4 / 60)
        + timezoneOffset this)"
  using assms
  by (simp add: calculateSolarTime_def Let_def normalize24 spec_normalize24_def spec_noon_def)

lemma spec_normalize24_range: "0 \<le> spec_normalize24 x \<and> spec_normalize24 x < 24"
  unfolding spec_normalize24_def by (rule mod24_range)

lemma calculateSolarTime_range:
  "calculateSolarTime this latitude longitude elevation year month day isSunrise = - 9999 \<or>
   (0 \<le> calculateSolarTime this latitude longitude elevation year month day isSunrise \<and>
    calculateSolarTime this latitude longitude elevation year month day isSunrise < 24)"
proof (cases "hourAngleSunrise latitude (sunDeclination (julianCentury (julianDay year month day))) elevation < 0")
  case True
  then show ?thesis by (simp add: calculateSolarTime_no_event)
next
  case False
  show ?thesis
    unfolding calculateSolarTime_occurs [OF False]
    using spec_normalize24_range by blast
qed

text \<open>
  Claim C2.  For every date and location (elevation \<open>\<ge> 0\<close>, quotients defined): when
  \<open>cos HA > 1\<close> (the sun never rises) or \<open>cos HA < -1\<close> (it never
  sets), \<^verbatim>\<open>calculateSunrise\<close> and \<^verbatim>\<open>calculateSunset\<close> both
  return \<open>-9999\<close>, whichever of the two cases it is; and \<open>-9999\<close> is reserved:
  no call in which the event occurs returns it.
\<close>

theorem no_event_sentinel:
  assumes "0 \<le> elevation"
    and "quotients_defined latitude (julianCentury (julianDay year month day))"
    and "spec_cosHA latitude (sunDeclination (julianCentury (julianDay year month day))) elevation > 1 \<or>
         spec_cosHA latitude (sunDeclination (julianCentury (julianDay year month day))) elevation < - 1"
  shows "calculateSunrise this latitude longitude elevation year month day = - 9999 \<and>
         calculateSunset this latitude longitude elevation year month day = - 9999 \<and>
         (\<forall>lat' lon' elev' year' month' day' b.
            0 \<le> elev' \<and> quotients_defined lat' (julianCentury (julianDay year' month' day')) \<and>
            - 1 \<le> spec_cosHA lat' (sunDeclination (julianCentury (julianDay year' month' day'))) elev' \<and>
            spec_cosHA lat' (sunDeclination (julianCentury (julianDay year' month' day'))) elev' \<le> 1 \<longrightarrow>
            calculateSolarTime this lat' lon' elev' year' month' day' b \<noteq> - 9999)"
proof -
  have neg: "hourAngleSunrise latitude (sunDeclination (julianCentury (julianDay year month day))) elevation < 0"
    using assms(3) by (simp add: hourAngleSunrise_neg_iff)
  have a: "calculateSunrise this latitude longitude elevation year month day = - 9999"
    unfolding calculateSunrise_def by (rule calculateSolarTime_no_event [OF neg])
  have b: "calculateSunset this latitude longitude elevation year month day = - 9999"
    unfolding calculateSunset_def by (rule calculateSolarTime_no_event [OF neg])
  have c: "calculateSolarTime this lat' lon' elev' year' month' day' b \<noteq> - 9999"
    if "- 1 \<le> spec_cosHA lat' (sunDeclination (julianCentury (julianDay year' month' day'))) elev'"
      and "spec_cosHA lat' (sunDeclination (julianCentury (julianDay year' month' day'))) elev' \<le> 1"
    for lat' lon' elev' year' month' day' b
  proof -
    have nn: "\<not> hourAngleSunrise lat' (sunDeclination (julianCentury (julianDay year' month' day'))) elev' < 0"
      using that by (simp add: hourAngleSunrise_neg_iff)
    have "0 \<le> calculateSolarTime this lat' lon' elev' year' month' day' b"
      unfolding calculateSolarTime_occurs [OF nn] using spec_normalize24_range by blast
    then show ?thesis by simp
  qed
  from a b c show ?thesis by blast
qed

text \<open>
  Claim C3.  For every date and location (elevation \<open>\<ge> 0\<close>, quotients defined): when
  the event occurs (\<open>cos HA\<close> in \<open>[-1, 1]\<close>), the result is solar
  noon \<open>(720 - 4 * longitude - eqTime) / 60\<close> minus (sunrise) or plus (sunset)
  \<open>HA * 4 / 60\<close>, plus the timezone offset, brought into \<open>[0, 24)\<close> by steps of
  24; hence every result other than \<open>-9999\<close> lies in \<open>[0, 24)\<close>.
\<close>

theorem event_time:
  assumes "0 \<le> elevation"
    and "t = julianCentury (julianDay year month day)"
    and "quotients_defined latitude t"
  shows "(- 1 \<le> spec_cosHA latitude (sunDeclination t) elevation \<and>
          spec_cosHA latitude (sunDeclination t) elevation \<le> 1 \<longrightarrow>
            calculateSunrise this latitude longitude elevation year month day =
              spec_normalize24 (spec_noon longitude (equationOfTime t) -
                 spec_hourAngle latitude (sunDeclination t) elevation * 4 / 60 + timezoneOffset this) \<and>
            calculateSunset this latitude longitude elevation year month day =
              spec_normalize24 (spec_noon longitude (equationOfTime t) +
                 spec_hourAngle latitude (sunDeclination t) elevation * 4 / 60 + timezoneOffset this)) \<and>
         (calculateSunrise this latitude longitude elevation year month day \<noteq> - 9999 \<longrightarrow>
            0 \<le> calculateSunrise this latitude longitude elevation year month day \<and>
            calculateSunrise this latitude longitude elevation year month day < 24) \<and>
         (calculateSunset this latitude longitude elevation year month day \<noteq> - 9999 \<longrightarrow>
            0 \<le> calculateSunset this latitude longitude elevation year month day \<and>
            calculateSunset this latitude longitude elevation year month day < 24)"
proof -
  have ev: "calculateSunrise this latitude longitude elevation year month day =
              spec_normalize24 (spec_noon longitude (equationOfTime t) -
                 spec_hourAngle latitude (sunDeclination t) elevation * 4 / 60 + timezoneOffset this) \<and>
            calculateSunset this latitude longitude elevation year month day =
              spec_normalize24 (spec_noon longitude (equationOfTime t) +
                 spec_hourAngle latitude (sunDeclination t) elevation * 4 / 60 + timezoneOffset this)"
    if c: "- 1 \<le> spec_cosHA latitude (sunDeclination t) elevation"
          "spec_cosHA latitude (sunDeclination t) elevation \<le> 1"
  proof -
    have ha: "hourAngleSunrise latitude (sunDeclination t) elevation =
              spec_hourAngle latitude (sunDeclination t) elevation"
      using c by (simp add: hourAngleSunrise_spec spec_hourAngle_def)
    have nn: "\<not> hourAngleSunrise latitude (sunDeclination (julianCentury (julianDay year month day))) elevation < 0"
      using c by (simp add: hourAngleSunrise_neg_iff assms(2) [symmetric])
    show ?thesis
      unfolding calculateSunrise_def calculateSunset_def calculateSolarTime_occurs [OF nn]
      by (simp add: assms(2) [symmetric] ha)
  qed
  have r1: "calculateSunrise this latitude longitude elevation year month day \<noteq> - 9999 \<longrightarrow>
            0 \<le> calculateSunrise this latitude longitude elevation year month day \<and>
            calculateSunrise this latitude longitude elevation year month day < 24"
    unfolding calculateSunrise_def
    using calculateSolarTime_range [of this latitude longitude elevation year month day True] by blast
  have r2: "calculateSunset this latitude longitude elevation year month day \<noteq> - 9999 \<longrightarrow>
            0 \<le> calculateSunset this latitude longitude elevation year month day \<and>
            calculateSunset this latitude longitude elevation year month day < 24"
    unfolding calculateSunset_def
    using calculateSolarTime_range [of this latitude longitude elevation year month day False] by blast
  from ev r1 r2 show ?thesis by blast
qed

subsection \<open>A polar and an equatorial instance\<close>

lemma declination_rad:
  "sunDeclination t * M_PI / 180 =
     arcsin (sin (obliquityCorrection t * pi / 180) * sin (sunApparentLongitude t * pi / 180))"
  by (simp add: sunDeclination_def M_PI_def Let_def)

lemma obliquity_bounds:
  "meanObliquityOfEcliptic t - 0.00256 \<le> obliquityCorrection t \<and>
   obliquityCorrection t \<le> meanObliquityOfEcliptic t + 0.00256"
proof -
  define c where "c = cos ((125.04 - 1934.136 * t) * M_PI / 180.0)"
  have "- 1 \<le> c" "c \<le> 1" by (simp_all add: c_def)
  then have "- 0.00256 \<le> 0.00256 * c" "0.00256 * c \<le> 0.00256" by simp_all
  moreover have "obliquityCorrection t = meanObliquityOfEcliptic t + 0.00256 * c"
    by (simp add: obliquityCorrection_def Let_def c_def)
  ultimately show ?thesis by simp
qed

lemma sint_small:
  assumes "0 \<le> obliquityCorrection t" "obliquityCorrection t \<le> 24"
  defines "s \<equiv> sin (obliquityCorrection t * pi / 180) * sin (sunApparentLongitude t * pi / 180)"
  shows "\<bar>s\<bar> \<le> 8 / 15"
proof -
  let ?x = "obliquityCorrection t * pi / 180"
  have "\<bar>sin ?x\<bar> \<le> \<bar>?x\<bar>" by (rule abs_sin_x_le_abs_x)
  also have "\<bar>?x\<bar> = ?x" using assms(1) by simp
  also have "?x \<le> 24 * pi / 180" using assms(2) by simp
  also have "24 * pi / 180 \<le> 24 * 4 / 180" using pi_less_4 by simp
  finally have a: "\<bar>sin ?x\<bar> \<le> 8 / 15" by simp
  have "\<bar>s\<bar> = \<bar>sin ?x\<bar> * \<bar>sin (sunApparentLongitude t * pi / 180)\<bar>"
    by (simp add: s_def abs_mult)
  also have "\<dots> \<le> \<bar>sin ?x\<bar> * 1"
    by (rule mult_left_mono) simp_all
  finally show ?thesis using a by simp
qed

lemma cos_89: "0 < cos (89 * pi / 180) \<and> cos (89 * pi / 180) \<le> 1 / 45"
proof -
  have eq: "89 * pi / 180 = pi / 2 - pi / 180" by simp
  have "cos (pi / 2 - pi / 180) = sin (pi / 180)"
    by (simp only: cos_diff cos_pi_half sin_pi_half mult_zero_left mult_1 add_0)
  then have c: "cos (89 * pi / 180) = sin (pi / 180)" by (metis eq)
  have "0 < sin (pi / 180)" by (rule sin_gt_zero) simp_all
  moreover have "sin (pi / 180) \<le> pi / 180" by (rule sin_x_le_x) simp
  moreover have "pi / 180 \<le> 4 / 180" using pi_less_4 by simp
  ultimately show ?thesis using c by simp
qed

lemma polar_cosHA:
  fixes cl sl s cd cz :: real
  assumes cl: "0 < cl" "cl \<le> 1 / 45" and sl: "\<bar>sl\<bar> \<le> 1"
    and s: "\<bar>s\<bar> \<le> 8 / 15" and cd: "0 < cd" "cd \<le> 1" and cz: "cz = 1 \<or> cz = - 1"
  shows "(cz = 1 \<longrightarrow> cz / (cl * cd) - (sl / cl) * (s / cd) > 1) \<and>
         (cz = - 1 \<longrightarrow> cz / (cl * cd) - (sl / cl) * (s / cd) < - 1)"
proof -
  have pos: "0 < cl * cd" using cl cd by simp
  have le: "cl * cd \<le> 1 / 45"
  proof -
    have "cl * cd \<le> cl * 1" using cl cd by (intro mult_left_mono) simp_all
    with cl show ?thesis by linarith
  qed
  have "\<bar>sl * s\<bar> \<le> 1 * (8 / 15)"
    unfolding abs_mult using sl s by (intro mult_mono) simp_all
  then have p: "- (8 / 15) \<le> sl * s" "sl * s \<le> 8 / 15" by (simp_all add: abs_le_iff)
  have eq: "cz / (cl * cd) - (sl / cl) * (s / cd) = (cz - sl * s) / (cl * cd)"
    using cl cd by (simp add: field_simps)
  show ?thesis
  proof (intro conjI impI)
    assume "cz = 1"
    then have "cl * cd < cz - sl * s" using p le by simp
    then have "1 < (cz - sl * s) / (cl * cd)" using pos by (simp add: pos_less_divide_eq)
    then show "cz / (cl * cd) - (sl / cl) * (s / cd) > 1" by (simp only: eq)
  next
    assume "cz = - 1"
    then have "cz - sl * s < - (cl * cd)" using p le by simp
    then have "(cz - sl * s) / (cl * cd) < - 1" using pos by (simp add: pos_divide_less_eq)
    then show "cz / (cl * cd) - (sl / cl) * (s / cd) < - 1" by (simp only: eq)
  qed
qed

lemma solstice_century: "julianCentury (julianDay 2024 6 21) = 178750 / 730500"
  by (simp add: julianDay_def julianCentury_def Let_def signed_divide_int_def)

lemma solstice_obliquity:
  "0 \<le> obliquityCorrection (178750 / 730500) \<and> obliquityCorrection (178750 / 730500) \<le> 24"
proof -
  have "23 < meanObliquityOfEcliptic (178750 / 730500)"
       "meanObliquityOfEcliptic (178750 / 730500) < 23.5"
    by (simp_all add: meanObliquityOfEcliptic_def)
  then show ?thesis using obliquity_bounds [of "178750 / 730500"] by simp
qed

lemma solstice_quotients:
  assumes "cos (latitude * pi / 180) \<noteq> 0"
  shows "quotients_defined latitude (julianCentury (julianDay 2024 6 21))"
proof -
  define t :: real where "t = 178750 / 730500"
  define s where "s = sin (obliquityCorrection t * pi / 180) * sin (sunApparentLongitude t * pi / 180)"
  have "\<bar>s\<bar> \<le> 8 / 15"
    unfolding s_def t_def using solstice_obliquity by (intro sint_small) simp_all
  then have "- 1 < s" "s < 1" by (simp_all add: abs_le_iff)
  then have "cos (arcsin s) \<noteq> 0" by (intro cos_arcsin_nonzero)
  moreover have "sunDeclination t * M_PI / 180 = arcsin s"
    using declination_rad [of t] by (simp add: s_def)
  ultimately have d: "cos (sunDeclination t * M_PI / 180) \<noteq> 0" by simp
  have "0 \<le> obliquityCorrection t" "obliquityCorrection t \<le> 24"
    using solstice_obliquity by (simp_all add: t_def)
  then have "0 \<le> (obliquityCorrection t / 2) * pi / 180"
       "(obliquityCorrection t / 2) * pi / 180 \<le> 12 * pi / 180"
    by simp_all
  moreover have "12 * pi / 180 < pi / 2" by simp
  moreover have "- (pi / 2) < 0" by simp
  ultimately have "- (pi / 2) < (obliquityCorrection t / 2) * pi / 180"
       "(obliquityCorrection t / 2) * pi / 180 < pi / 2"
    by linarith+
  then have "0 < cos ((obliquityCorrection t / 2) * pi / 180)" by (rule cos_gt_zero_pi)
  with d assms show ?thesis
    unfolding quotients_defined_def solstice_century t_def [symmetric] by (simp add: M_PI_def)
qed

lemma solstice_polar:
  assumes cz: "cos (spec_zenith elevation * pi / 180) = 1 \<or> cos (spec_zenith elevation * pi / 180) = - 1"
  defines "c \<equiv> spec_cosHA 89 (sunDeclination (julianCentury (julianDay 2024 6 21))) elevation"
  shows "(cos (spec_zenith elevation * pi / 180) = 1 \<longrightarrow> c > 1) \<and>
         (cos (spec_zenith elevation * pi / 180) = - 1 \<longrightarrow> c < - 1)"
proof -
  define t :: real where "t = 178750 / 730500"
  define s where "s = sin (obliquityCorrection t * pi / 180) * sin (sunApparentLongitude t * pi / 180)"
  have s: "\<bar>s\<bar> \<le> 8 / 15"
    unfolding s_def t_def using solstice_obliquity by (intro sint_small) simp_all
  then have s1: "- 1 < s" "s < 1" "- 1 \<le> s" "s \<le> 1" by (simp_all add: abs_le_iff)
  have rad: "sunDeclination t * pi / 180 = arcsin s"
    using declination_rad [of t] by (simp add: s_def M_PI_def)
  have sd: "sin (arcsin s) = s" using s1 by simp
  have "cos (arcsin s) \<noteq> 0" using s1 by (intro cos_arcsin_nonzero)
  moreover have "0 \<le> cos (arcsin s)"
    using arcsin_bounded [of s] s1 by (intro cos_ge_zero) simp_all
  ultimately have cd: "0 < cos (arcsin s)" "cos (arcsin s) \<le> 1" by simp_all
  have "\<bar>sin (89 * pi / 180)\<bar> \<le> 1" by simp
  from polar_cosHA [OF cos_89 [THEN conjunct1] cos_89 [THEN conjunct2] this s cd cz]
  show ?thesis
    unfolding c_def solstice_century spec_cosHA_def tan_def
    by (simp only: rad [unfolded t_def] sd)
qed

lemma equator_cosHA: "spec_cosHA 0 decl ((4165 / 173)\<^sup>2) = 0"
proof -
  have "spec_zenith ((4165 / 173)\<^sup>2) = 90" by (simp add: spec_zenith_def)
  then show ?thesis by (simp add: spec_cosHA_def)
qed

theorem event_time_witness:
  "(0::real) \<le> (4165 / 173)\<^sup>2 \<and> quotients_defined 0 (julianCentury (julianDay 2024 6 21)) \<and>
   spec_cosHA 0 (sunDeclination (julianCentury (julianDay 2024 6 21))) ((4165 / 173)\<^sup>2) = 0 \<and>
   calculateSunrise \<lparr>timezoneOffset = 1\<rparr> 0 0 ((4165 / 173)\<^sup>2) 2024 6 21 =
     spec_normalize24 (spec_noon 0 (equationOfTime (julianCentury (julianDay 2024 6 21))) - 6 + 1) \<and>
   calculateSunset \<lparr>timezoneOffset = 1\<rparr> 0 0 ((4165 / 173)\<^sup>2) 2024 6 21 =
     spec_normalize24 (spec_noon 0 (equationOfTime (julianCentury (julianDay 2024 6 21))) + 6 + 1) \<and>
   0 \<le> calculateSunrise \<lparr>timezoneOffset = 1\<rparr> 0 0 ((4165 / 173)\<^sup>2) 2024 6 21 \<and>
   calculateSunrise \<lparr>timezoneOffset = 1\<rparr> 0 0 ((4165 / 173)\<^sup>2) 2024 6 21 < 24"
proof -
  let ?t = "julianCentury (julianDay 2024 6 21)"
  let ?e = "(4165 / 173 :: real)\<^sup>2"
  have e: "0 \<le> ?e" by simp
  have ha: "spec_hourAngle 0 (sunDeclination ?t) ?e * 4 / 60 = 6"
    by (simp add: spec_hourAngle_def equator_cosHA)
  have q: "quotients_defined 0 ?t" by (intro solstice_quotients) simp
  note th = event_time [OF e refl q, of "\<lparr>timezoneOffset = 1\<rparr>" 0]
  have ev: "calculateSunrise \<lparr>timezoneOffset = 1\<rparr> 0 0 ?e 2024 6 21 =
     spec_normalize24 (spec_noon 0 (equationOfTime ?t) - 6 + 1) \<and>
     calculateSunset \<lparr>timezoneOffset = 1\<rparr> 0 0 ?e 2024 6 21 =
     spec_normalize24 (spec_noon 0 (equationOfTime ?t) + 6 + 1)"
    using th [THEN conjunct1] by (simp add: equator_cosHA ha)
  then have "0 \<le> calculateSunrise \<lparr>timezoneOffset = 1\<rparr> 0 0 ?e 2024 6 21 \<and>
     calculateSunrise \<lparr>timezoneOffset = 1\<rparr> 0 0 ?e 2024 6 21 < 24"
    using spec_normalize24_range by simp
  with ev e q show ?thesis by (simp add: equator_cosHA)
qed

subsection \<open>Midnight sun at latitude 89 on 21 June 2024\<close>

lemma cos_small:
  fixes y :: real
  assumes "\<bar>y\<bar> \<le> 1 / 15"
  shows "99 / 100 \<le> cos y"
proof -
  define S where "S = (sin y)\<^sup>2"
  have "\<bar>sin y\<bar> \<le> \<bar>y\<bar>" by (rule abs_sin_x_le_abs_x)
  with assms have "\<bar>sin y\<bar> \<le> \<bar>1 / 15 :: real\<bar>" by simp
  then have "(sin y)\<^sup>2 \<le> (1 / 15)\<^sup>2" by (simp only: abs_le_square_iff)
  then have S: "S \<le> 1 / 225" by (simp add: S_def power2_eq_square)
  have c: "(cos y)\<^sup>2 = 1 - S" by (simp add: S_def cos_squared_eq)
  have "(99 / 100 :: real)\<^sup>2 = 9801 / 10000" by (simp add: power2_eq_square)
  with S c have c2: "(99 / 100)\<^sup>2 \<le> (cos y)\<^sup>2" by linarith
  have "\<bar>y\<bar> < pi / 2" using assms pi_ge_two by linarith
  then have "0 \<le> cos y" by (intro cos_ge_zero) (simp_all add: abs_less_iff)
  with c2 show ?thesis by (rule power2_le_imp_le)
qed

lemma sin_15: "1 / 4 \<le> sin (pi / 12)"
proof -
  define S where "S = (sin (pi / 12))\<^sup>2"
  have "cos (2 * (pi / 12)) = 1 - 2 * (sin (pi / 12))\<^sup>2" by (rule cos_double_sin)
  moreover have "cos (2 * (pi / 12)) = sqrt 3 / 2" using cos_30 by simp
  ultimately have s: "sqrt 3 / 2 = 1 - 2 * S" by (simp add: S_def)
  have q: "sqrt 3 \<le> 7 / 4" by (rule real_le_lsqrt) (simp_all add: power2_eq_square)
  have "(1 / 4 :: real)\<^sup>2 = 1 / 16" by (simp add: power2_eq_square)
  with s q have "(1 / 4)\<^sup>2 \<le> (sin (pi / 12))\<^sup>2" unfolding S_def [symmetric] by linarith
  moreover have "0 \<le> sin (pi / 12)" by (intro sin_ge_zero) simp_all
  ultimately show ?thesis by (rule power2_le_imp_le)
qed

lemma sub360_range:
  "360 * real k < x \<Longrightarrow> x \<le> 360 * real (Suc k) \<Longrightarrow> sub360 x = x - 360 * real k"
proof (induction k arbitrary: x)
  case 0
  then show ?case by (simp add: sub360.simps [of x])
next
  case (Suc k)
  then have "360 < x" by simp
  then have "sub360 x = sub360 (x - 360)" by (simp add: sub360.simps [of x])
  also have "\<dots> = x - 360 - 360 * real k"
    using Suc.prems by (intro Suc.IH) simp_all
  finally show ?case by simp
qed

lemma add360_nonneg: "0 \<le> y \<Longrightarrow> add360 y = y"
  by (simp add: add360.simps [of y])

lemma solstice_longitude:
  "89.5 \<le> sunGeomMeanLongitude (178750 / 730500) \<and> sunGeomMeanLongitude (178750 / 730500) \<le> 90"
proof -
  define L :: real where "L = 280.46646 + (178750 / 730500) * (36000.76983 + (178750 / 730500) * 0.0003032)"
  have b: "360 * real 25 < L" "L \<le> 360 * real (Suc 25)" "9089.5 \<le> L" "L \<le> 9090"
    by (simp_all add: L_def)
  have "sub360 L = L - 360 * real 25" using b(1,2) by (rule sub360_range)
  then have s: "sub360 L = L - 9000" by simp
  have a: "add360 (L - 9000) = L - 9000" using b(3) by (intro add360_nonneg) simp
  have "sunGeomMeanLongitude (178750 / 730500) = L - 9000"
    unfolding sunGeomMeanLongitude_def Let_def L_def [symmetric] by (simp only: s a)
  with b(3,4) show ?thesis by simp
qed

lemma three_sines:
  fixes x y z a b c :: real
  assumes "\<bar>x\<bar> \<le> 1" "\<bar>y\<bar> \<le> 1" "\<bar>z\<bar> \<le> 1" "0 \<le> a" "0 \<le> b" "0 \<le> c"
  shows "\<bar>x * a + y * b + z * c\<bar> \<le> a + b + c"
proof -
  have "\<bar>x\<bar> * a \<le> 1 * a" by (rule mult_right_mono) (use assms in auto)
  moreover have "\<bar>y\<bar> * b \<le> 1 * b" by (rule mult_right_mono) (use assms in auto)
  moreover have "\<bar>z\<bar> * c \<le> 1 * c" by (rule mult_right_mono) (use assms in auto)
  ultimately have "\<bar>x * a\<bar> \<le> a" "\<bar>y * b\<bar> \<le> b" "\<bar>z * c\<bar> \<le> c"
    using assms by (simp_all add: abs_mult)
  then show ?thesis by linarith
qed

lemma solstice_center: "\<bar>sunEquationOfCenter (178750 / 730500)\<bar> \<le> 2"
proof -
  have "\<bar>sunEquationOfCenter (178750 / 730500)\<bar> \<le>
        (1.914602 - (178750 / 730500) * (0.004817 + 0.000014 * (178750 / 730500))) +
        (0.019993 - 0.000101 * (178750 / 730500)) + 0.000289"
    unfolding sunEquationOfCenter_def Let_def
    by (rule three_sines) simp_all
  also have "\<dots> \<le> 2" by simp
  finally show ?thesis .
qed

lemma solstice_apparent:
  "\<bar>sunApparentLongitude (178750 / 730500) - 90\<bar> \<le> 2.6"
proof -
  define G where "G = sunGeomMeanLongitude (178750 / 730500)"
  define C where "C = sunEquationOfCenter (178750 / 730500)"
  define s where "s = sin ((125.04 - 1934.136 * (178750 / 730500)) * M_PI / 180.0)"
  have G: "89.5 \<le> G" "G \<le> 90"
    using solstice_longitude by (simp_all add: G_def)
  have C: "- 2 \<le> C" "C \<le> 2" using solstice_center by (simp_all add: C_def abs_le_iff)
  have s: "- 1 \<le> s" "s \<le> 1" by (simp_all add: s_def)
  have "sunApparentLongitude (178750 / 730500) = G + C - 0.00569 - 0.00478 * s"
    unfolding sunApparentLongitude_def sunTrueLongitude_def Let_def G_def C_def s_def ..
  with G C s show ?thesis unfolding abs_le_iff by simp
qed

lemma solstice_sin_longitude: "99 / 100 \<le> sin (sunApparentLongitude (178750 / 730500) * pi / 180)"
proof -
  define y where "y = (sunApparentLongitude (178750 / 730500) - 90) * pi / 180"
  have "\<bar>y\<bar> = \<bar>sunApparentLongitude (178750 / 730500) - 90\<bar> * pi / 180"
    by (simp add: y_def abs_mult)
  also have "\<dots> \<le> 2.6 * pi / 180"
    using solstice_apparent by simp
  also have "\<dots> \<le> 2.6 * 4 / 180" using pi_less_4 by simp
  also have "\<dots> \<le> 1 / 15" by simp
  finally have c: "99 / 100 \<le> cos y" by (rule cos_small)
  have eq: "sunApparentLongitude (178750 / 730500) * pi / 180 = pi / 2 + y"
    by (simp add: y_def field_simps)
  have g: "sin (pi / 2 + x) = cos x" for x :: real by (simp add: sin_add)
  have "sin (sunApparentLongitude (178750 / 730500) * pi / 180) = cos y"
    by (simp only: eq g)
  with c show ?thesis by simp
qed

lemma solstice_sin_obliquity: "1 / 4 \<le> sin (obliquityCorrection (178750 / 730500) * pi / 180)"
proof -
  define e where "e = obliquityCorrection (178750 / 730500)"
  have "23 < meanObliquityOfEcliptic (178750 / 730500)"
       "meanObliquityOfEcliptic (178750 / 730500) < 23.5"
    by (simp_all add: meanObliquityOfEcliptic_def)
  then have e: "15 \<le> e" "e \<le> 90"
    using obliquity_bounds [of "178750 / 730500"] by (simp_all add: e_def)
  have "sin (pi / 12) \<le> sin (e * pi / 180)"
  proof (rule sin_monotone_2pi_le)
    show "- (pi / 2) \<le> pi / 12" by simp
    show "pi / 12 \<le> e * pi / 180" using e(1) by simp
    show "e * pi / 180 \<le> pi / 2" using e(2) by simp
  qed
  with sin_15 show ?thesis unfolding e_def by linarith
qed

lemma polar_day_cosHA:
  fixes cl sl s cd cz :: real
  assumes cl: "0 < cl" "cl \<le> 1 / 45" and sl: "99 / 100 \<le> sl"
    and s: "24 / 100 \<le> s" and cd: "0 < cd" "cd \<le> 1" and cz: "cz \<le> 11 / 1000"
  shows "cz / (cl * cd) - (sl / cl) * (s / cd) < - 1"
proof -
  have pos: "0 < cl * cd" using cl cd by simp
  have le: "cl * cd \<le> 1 / 45"
  proof -
    have "cl * cd \<le> cl * 1" using cl cd by (intro mult_left_mono) simp_all
    with cl show ?thesis by linarith
  qed
  have "(99 / 100) * (24 / 100) \<le> sl * s"
    using sl s by (intro mult_mono) simp_all
  then have "cz - sl * s < - (cl * cd)" using cz le by simp
  then have "(cz - sl * s) / (cl * cd) < - 1" using pos by (simp add: pos_divide_less_eq)
  moreover have "cz / (cl * cd) - (sl / cl) * (s / cd) = (cz - sl * s) / (cl * cd)"
    using cl cd by (simp add: field_simps)
  ultimately show ?thesis by simp
qed

lemma midnight_sun:
  "spec_cosHA 89 (sunDeclination (julianCentury (julianDay 2024 6 21))) 100 < - 1"
proof -
  define t :: real where "t = 178750 / 730500"
  define s where "s = sin (obliquityCorrection t * pi / 180) * sin (sunApparentLongitude t * pi / 180)"
  have "\<bar>s\<bar> \<le> 8 / 15"
    unfolding s_def t_def using solstice_obliquity by (intro sint_small) simp_all
  then have s1: "- 1 < s" "s < 1" "- 1 \<le> s" "s \<le> 1" by (simp_all add: abs_le_iff)
  have "(1 / 4) * (99 / 100) \<le> s"
    unfolding s_def t_def using solstice_sin_obliquity solstice_sin_longitude
    by (intro mult_mono) simp_all
  then have s24: "24 / 100 \<le> s" by simp
  have rad: "sunDeclination t * pi / 180 = arcsin s"
    using declination_rad [of t] by (simp add: s_def M_PI_def)
  have sd: "sin (arcsin s) = s" using s1 by simp
  have "cos (arcsin s) \<noteq> 0" using s1 by (intro cos_arcsin_nonzero)
  moreover have "0 \<le> cos (arcsin s)"
    using arcsin_bounded [of s] s1 by (intro cos_ge_zero) simp_all
  ultimately have cd: "0 < cos (arcsin s)" "cos (arcsin s) \<le> 1" by simp_all
  have sl: "99 / 100 \<le> sin (89 * pi / 180)"
  proof -
    have "\<bar>pi / 180\<bar> \<le> 1 / 15" using pi_less_4 by simp
    then have c: "99 / 100 \<le> cos (pi / 180)" by (rule cos_small)
    have g: "sin (pi / 2 - x) = cos x" for x :: real by (simp add: sin_diff)
    have e89: "89 * pi / 180 = pi / 2 - pi / 180" by simp
    have "sin (89 * pi / 180) = cos (pi / 180)" by (simp only: e89 g)
    with c show ?thesis by simp
  qed
  have z: "spec_zenith 100 = 90.487"
  proof -
    have "sqrt 100 = 10" using real_sqrt_abs [of 10] by simp
    then show ?thesis by (simp add: spec_zenith_def)
  qed
  have cz: "cos (spec_zenith 100 * pi / 180) \<le> 11 / 1000"
  proof -
    define u where "u = 0.487 * pi / 180"
    have eq: "spec_zenith 100 * pi / 180 = pi / 2 + u" by (simp add: z u_def)
    have g: "cos (pi / 2 + x) = - sin x" for x :: real by (simp add: cos_add)
    have c: "cos (spec_zenith 100 * pi / 180) = - sin u" by (simp only: eq g)
    have "\<bar>sin u\<bar> \<le> \<bar>u\<bar>" by (rule abs_sin_x_le_abs_x)
    moreover have "\<bar>u\<bar> \<le> 11 / 1000" using pi_less_4 by (simp add: u_def)
    ultimately show ?thesis unfolding c by (simp add: abs_le_iff)
  qed
  from polar_day_cosHA [OF cos_89 [THEN conjunct1] cos_89 [THEN conjunct2] sl s24 cd cz]
  show ?thesis
    unfolding solstice_century spec_cosHA_def tan_def
    by (simp only: rad [unfolded t_def] sd)
qed

theorem no_event_sentinel_witness:
  "(0::real) \<le> 100 \<and> quotients_defined 89 (julianCentury (julianDay 2024 6 21)) \<and>
   spec_cosHA 89 (sunDeclination (julianCentury (julianDay 2024 6 21))) 100 < - 1 \<and>
   calculateSunrise \<lparr>timezoneOffset = 1\<rparr> 89 0 100 2024 6 21 = - 9999 \<and>
   calculateSunset \<lparr>timezoneOffset = 1\<rparr> 89 0 100 2024 6 21 = - 9999 \<and>
   (0::real) \<le> (1362495 / 519)\<^sup>2 \<and>
   spec_cosHA 89 (sunDeclination (julianCentury (julianDay 2024 6 21))) ((1362495 / 519)\<^sup>2) > 1 \<and>
   calculateSunrise \<lparr>timezoneOffset = 1\<rparr> 89 0 ((1362495 / 519)\<^sup>2) 2024 6 21 = - 9999 \<and>
   calculateSunset \<lparr>timezoneOffset = 1\<rparr> 89 0 ((1362495 / 519)\<^sup>2) 2024 6 21 = - 9999"
proof -
  have z: "spec_zenith ((1362495 / 519)\<^sup>2) = 0"
    by (simp add: spec_zenith_def)
  have c: "spec_cosHA 89 (sunDeclination (julianCentury (julianDay 2024 6 21))) ((1362495 / 519)\<^sup>2) > 1"
    using solstice_polar [of "(1362495 / 519)\<^sup>2"] by (simp only: z) simp
  have e: "(0::real) \<le> (1362495 / 519)\<^sup>2" by simp
  have e': "(0::real) \<le> 100" by simp
  have q: "quotients_defined 89 (julianCentury (julianDay 2024 6 21))"
    using cos_89 by (intro solstice_quotients) simp
  from no_event_sentinel [OF e q disjI1 [OF c], of "\<lparr>timezoneOffset = 1\<rparr>" 0]
       no_event_sentinel [OF e' q disjI2 [OF midnight_sun], of "\<lparr>timezoneOffset = 1\<rparr>" 0]
       c e midnight_sun q
  show ?thesis by simp
qed

section \<open>Properties of the driver\<close>

declare forBlocks.simps [simp del]

lemma smod_eq_0_iff: "(k::int) smod l = 0 \<longleftrightarrow> k mod l = 0"
proof -
  have "k smod l = 0 \<longleftrightarrow> k = 0 \<or> \<bar>k\<bar> mod \<bar>l\<bar> = 0"
    by (simp add: signed_modulo_int_def sgn_if)
  also have "\<dots> \<longleftrightarrow> \<bar>l\<bar> dvd \<bar>k\<bar>"
    by (auto simp: mod_eq_0_iff_dvd)
  also have "\<dots> \<longleftrightarrow> k mod l = 0"
    by (simp add: mod_eq_0_iff_dvd)
  finally show ?thesis .
qed

lemma isLeapYear_gregorian:
  "isLeapYear year \<longleftrightarrow> (year mod 4 = 0 \<and> year mod 100 \<noteq> 0) \<or> year mod 400 = 0"
  by (simp add: isLeapYear_def smod_eq_0_iff)

lemma forEachDay_flat:
  "forEachDay isLeap body s = foldl (\<lambda>s (m, d). body m d s) s (yearDates isLeap)"
proof -
  have inner: "foldl (\<lambda>s d. body m d s) s ds = foldl (\<lambda>s (m, d). body m d s) s (map (Pair m) ds)"
    for m s and ds :: "int list"
    by (induction ds arbitrary: s) simp_all
  have outer: "foldl (\<lambda>s m. foldl (\<lambda>s d. body m d s) s (f m)) s ms =
        foldl (\<lambda>s (m, d). body m d s) s (concat (map (\<lambda>m. map (Pair m) (f m)) ms))"
    for f :: "int \<Rightarrow> int list" and ms s
    by (induction ms arbitrary: s) (simp_all add: inner)
  show ?thesis unfolding forEachDay_def yearDates_def by (rule outer)
qed

lemma upto_1_12: "[1..12] = [1,2,3,4,5,6,7,8,9,10,11,12::int]"
  by (simp add: upto_rec1 [of 1 12])

lemma length_yearDates: "length (yearDates isLeap) = (if isLeap then 366 else 365)"
  by (simp add: yearDates_def upto_1_12 daysInMonth_def)

lemma streamPixel_update:
  "streamPixel calc geoTransform width demNodata demData year m d i bufs =
     ((fst bufs)[i := fst (streamValues calc geoTransform width demNodata demData year m d i)],
      (snd bufs)[i := snd (streamValues calc geoTransform width demNodata demData year m d i)])"
  by (simp add: streamPixel_def streamValues_def Let_def split_beta)

lemma pixelPass_Nil: "pixelPass [] body s = s"
  by (simp add: pixelPass_def)

lemma pixelPass_Cons: "pixelPass (i # sched) body s = pixelPass sched body (body i s)"
  by (simp add: pixelPass_def)

lemma pixelPass_pair:
  assumes body: "\<And>i b. body i b = ((fst b)[i := f i], (snd b)[i := g i])"
  shows "pixelPass sched body (A, B) =
     (map (\<lambda>k. if k \<in> set sched then f k else A ! k) [0..<length A],
      map (\<lambda>k. if k \<in> set sched then g k else B ! k) [0..<length B])"
proof (induction sched arbitrary: A B)
  case Nil
  show ?case by (simp add: pixelPass_Nil map_nth)
next
  case (Cons i sched)
  have "pixelPass (i # sched) body (A, B) = pixelPass sched body (A[i := f i], B[i := g i])"
    by (simp add: pixelPass_Cons body)
  also have "\<dots> =
     (map (\<lambda>k. if k \<in> set sched then f k else A[i := f i] ! k) [0..<length A],
      map (\<lambda>k. if k \<in> set sched then g k else B[i := g i] ! k) [0..<length B])"
    by (simp add: Cons.IH)
  also have "\<dots> =
     (map (\<lambda>k. if k \<in> set (i # sched) then f k else A ! k) [0..<length A],
      map (\<lambda>k. if k \<in> set (i # sched) then g k else B ! k) [0..<length B])"
    by (auto simp: nth_list_update)
  finally show ?case .
qed

lemma streamPass:
  "pixelPass sched (streamPixel calc geoTransform width demNodata demData year m d) (A, B) =
     (map (\<lambda>k. if k \<in> set sched
                then fst (streamValues calc geoTransform width demNodata demData year m d k)
                else A ! k) [0..<length A],
      map (\<lambda>k. if k \<in> set sched
                then snd (streamValues calc geoTransform width demNodata demData year m d k)
                else B ! k) [0..<length B])"
  by (rule pixelPass_pair) (rule streamPixel_update)

lemma streamPass_full:
  assumes "set sched = {0..<n}" "length A = n" "length B = n"
  shows "pixelPass sched (streamPixel calc geoTransform width demNodata demData year m d) (A, B) =
     (map (\<lambda>k. fst (streamValues calc geoTransform width demNodata demData year m d k)) [0..<n],
      map (\<lambda>k. snd (streamValues calc geoTransform width demNodata demData year m d k)) [0..<n])"
  unfolding streamPass using assms by simp

lemma streamDay_effect:
  assumes "length (sunriseBuffer st) = n" "length (sunsetBuffer st) = n"
  shows "streamDay calc gt width n nodata demData year days m d st =
     \<lparr>sunriseBuffer = map (\<lambda>i. fst (streamValues calc gt width nodata demData year m d i)) [0..<n],
      sunsetBuffer = map (\<lambda>i. snd (streamValues calc gt width nodata demData year m d i)) [0..<n],
      currentDayOfYear = currentDayOfYear st + 1,
      cout = cout st @ [dayBlock calc gt width n nodata demData year (currentDayOfYear st + 1, m, d)],
      cerr = (if (currentDayOfYear st + 1) mod 10 = 0
              then cerr st @ [ProcessedDay (currentDayOfYear st + 1) days]
              else cerr st)\<rparr>"
proof -
  have "pixelPass [0..<n] (streamPixel calc gt width nodata demData year m d)
          (sunriseBuffer st, sunsetBuffer st) =
        (map (\<lambda>i. fst (streamValues calc gt width nodata demData year m d i)) [0..<n],
         map (\<lambda>i. snd (streamValues calc gt width nodata demData year m d i)) [0..<n])"
    using assms by (intro streamPass_full) simp_all
  then show ?thesis
    by (simp add: streamDay_def Let_def dayBlock_def)
qed

lemma streamDays_effect:
  assumes "length (sunriseBuffer st) = n" "length (sunsetBuffer st) = n"
  shows "cout (foldl (\<lambda>s (m, d). streamDay calc gt width n nodata demData year days m d s) st ds) =
           cout st @
           map (dayBlock calc gt width n nodata demData year)
             (zip [Suc (currentDayOfYear st)..<Suc (currentDayOfYear st) + length ds] ds) \<and>
         length (sunriseBuffer (foldl (\<lambda>s (m, d). streamDay calc gt width n nodata demData year days m d s) st ds)) = n \<and>
         length (sunsetBuffer (foldl (\<lambda>s (m, d). streamDay calc gt width n nodata demData year days m d s) st ds)) = n"
  using assms
proof (induction ds arbitrary: st)
  case Nil
  then show ?case by simp
next
  case (Cons md ds)
  obtain m d where md: "md = (m, d)" by (cases md)
  define s1 where "s1 = streamDay calc gt width n nodata demData year days m d st"
  have s1: "cout s1 = cout st @ [dayBlock calc gt width n nodata demData year (Suc (currentDayOfYear st), m, d)]"
     "currentDayOfYear s1 = Suc (currentDayOfYear st)"
     "length (sunriseBuffer s1) = n" "length (sunsetBuffer s1) = n"
    unfolding s1_def by (simp_all add: streamDay_effect [OF Cons.prems])
  have up: "zip [Suc (currentDayOfYear st)..<Suc (currentDayOfYear st) + length (md # ds)] (md # ds) =
            (Suc (currentDayOfYear st), md) #
            zip [Suc (currentDayOfYear s1)..<Suc (currentDayOfYear s1) + length ds] ds"
    by (simp add: upt_rec [of "Suc (currentDayOfYear st)"] s1(2) del: upt_Suc)
  have f: "foldl (\<lambda>s (m, d). streamDay calc gt width n nodata demData year days m d s) st (md # ds) =
           foldl (\<lambda>s (m, d). streamDay calc gt width n nodata demData year days m d s) s1 ds"
    by (simp add: md s1_def)
  show ?case
    unfolding f up using Cons.IH [OF s1(3,4)] by (simp add: s1(1) md)
qed

lemma streamWith_output:
  assumes "GDALOpen env inputPath = Some ds"
    and "RasterIO_Read ds 0 0 (RasterXSize ds) (RasterYSize ds) = Some demData"
  shows "fst (streamWith calc env inputPath year) = True \<and>
         fst (snd (streamWith calc env inputPath year)) =
           streamHeader (RasterXSize ds) (RasterYSize ds) (if isLeapYear year then 366 else 365)
             (take 6 (GeoTransform ds)) #
           map (dayBlock calc (GeoTransform ds) (RasterXSize ds) (RasterXSize ds * RasterYSize ds)
                  (NoDataValue ds) demData year)
             (zip [1..<Suc (length (yearDates (isLeapYear year)))] (yearDates (isLeapYear year)))"
proof -
  let ?n = "RasterXSize ds * RasterYSize ds"
  let ?st0 = "\<lparr>sunriseBuffer = replicate ?n 0, sunsetBuffer = replicate ?n 0,
               currentDayOfYear = 0,
               cout = [streamHeader (RasterXSize ds) (RasterYSize ds)
                         (if isLeapYear year then 366 else 365) (take 6 (GeoTransform ds))],
               cerr = []\<rparr>"
  have l: "length (sunriseBuffer ?st0) = ?n" "length (sunsetBuffer ?st0) = ?n" by simp_all
  note e = streamDays_effect [OF l, of calc "GeoTransform ds" "RasterXSize ds" "NoDataValue ds"
      demData year "if isLeapYear year then 366 else 365" "yearDates (isLeapYear year)"]
  show ?thesis
    using assms e [THEN conjunct1]
    by (simp add: streamWith_def Let_def forEachDay_flat streamHeader_def del: upt_Suc)
qed

lemma forBlocks_from:
  "forBlocks bound body (512 * k) s =
     foldl (\<lambda>s v. body v s) s (map (\<lambda>j. 512 * j) [k..<(bound + 511) div 512])"
proof (induction "(bound + 511) div 512 - k" arbitrary: k s)
  case 0
  then have "\<not> 512 * k < bound" by linarith
  moreover from 0 have "[k..<(bound + 511) div 512] = []" by simp
  ultimately show ?case by (simp add: forBlocks.simps [of bound body "512 * k"])
next
  case (Suc n)
  then have lt: "k < (bound + 511) div 512" by linarith
  then have b: "512 * k < bound" by linarith
  have n: "n = (bound + 511) div 512 - Suc k" using Suc.hyps(2) by linarith
  have "forBlocks bound body (512 * k) s = forBlocks bound body (512 * Suc k) (body (512 * k) s)"
    using b by (simp add: forBlocks.simps [of bound body "512 * k"] add.commute)
  also have "\<dots> = foldl (\<lambda>s v. body v s) (body (512 * k) s)
                      (map (\<lambda>j. 512 * j) [Suc k..<(bound + 511) div 512])"
    by (rule Suc.hyps(1) [OF n])
  also have "\<dots> = foldl (\<lambda>s v. body v s) s (map (\<lambda>j. 512 * j) [k..<(bound + 511) div 512])"
    using lt by (simp add: upt_rec [of k])
  finally show ?case .
qed

lemma forBlocks_foldl: "forBlocks bound body 0 s = foldl (\<lambda>s v. body v s) s (blockStarts bound)"
  using forBlocks_from [of bound body 0 s] by (simp add: blockStarts_def)

lemma tiles_foldl:
  "forBlocks height (\<lambda>y. forBlocks width (\<lambda>x. f x y) 0) 0 s =
     foldl (\<lambda>s (x, y). f x y s) s (tileOrigins width height)"
proof -
  have inner: "foldl (\<lambda>s x. f x y s) s xs = foldl (\<lambda>s (x, y). f x y s) s (map (\<lambda>x. (x, y)) xs)"
    for y s and xs :: "nat list"
    by (induction xs arbitrary: s) simp_all
  have outer: "foldl (\<lambda>s y. foldl (\<lambda>s x. f x y s) s xs) s ys =
        foldl (\<lambda>s (x, y). f x y s) s (concat (map (\<lambda>y. map (\<lambda>x. (x, y)) xs) ys))"
    for xs ys :: "nat list" and s
    by (induction ys arbitrary: s) (simp_all add: inner)
  show ?thesis
    by (simp add: forBlocks_foldl tileOrigins_def outer)
qed

lemma processBlock_outline:
  "map outline (events (processBlock calc env ds year x y st)) =
     map outline (events st) @ tileOutline env ds (x, y)"
  by (simp add: processBlock_def tileOutline_def Let_def blockXSize_def blockYSize_def
      split: option.split)

lemma processBlocks_outline:
  "map outline (events (foldl (\<lambda>s (x, y). processBlock calc env ds year x y s) st tiles)) =
     map outline (events st) @ concat (map (tileOutline env ds) tiles)"
proof (induction tiles arbitrary: st)
  case Nil
  show ?case by simp
next
  case (Cons t tiles)
  obtain x y where t: "t = (x, y)" by (cases t)
  show ?case by (simp add: t Cons.IH processBlock_outline)
qed

lemma processWith_open_failed:
  "GDALOpen env inputPath = None \<Longrightarrow>
     processWith calc env inputPath outputPath year = (False, [Log (ErrOpenInput inputPath)])"
  by (simp add: processWith_def)

lemma processWith_created:
  assumes "GDALOpen env inputPath = Some ds" "Create env outputPath = Created"
  shows "\<exists>od. createOutputDataset env outputPath (RasterXSize ds) (RasterYSize ds)
                 ((if isLeapYear year then 366 else 365) * 2) (GeoTransform ds) (ProjectionRef ds) = Inr od \<and>
              od_geoTransform od = GeoTransform ds \<and>
              od_projection od = ProjectionRef ds \<and>
              od_numBands od = (if isLeapYear year then 366 else 365) * 2 \<and>
              fst (processWith calc env inputPath outputPath year) = True \<and>
              map outline (snd (processWith calc env inputPath outputPath year)) =
                CreateDataset od #
                concat (map (tileOutline env ds) (tileOrigins (RasterXSize ds) (RasterYSize ds)))"
  using assms
  by (simp add: processWith_def createOutputDataset_def Let_def tiles_foldl processBlocks_outline)

lemma band_index:
  fixes i npix b :: nat
  assumes "i < npix"
  shows "(b * npix + i) div npix = b" "(b * npix + i) mod npix = i"
  using assms by simp_all

lemma band_index_Suc:
  assumes "i < npix"
  shows "(j < Suc b * npix \<and> j mod npix = i) \<longleftrightarrow> (j < b * npix \<and> j mod npix = i) \<or> j = b * npix + i"
proof (cases "j < b * npix")
  case True
  then have "j < Suc b * npix" by simp
  moreover from True have "j \<noteq> b * npix + i" by simp
  ultimately show ?thesis using True by simp
next
  case False
  show ?thesis
  proof
    assume a: "j < Suc b * npix \<and> j mod npix = i"
    with False have "j div npix = b"
      by (intro div_nat_eqI) (simp_all add: mult.commute)
    then have "j = b * npix + j mod npix"
      using div_mult_mod_eq [of j npix] by simp
    with a show "(j < b * npix \<and> j mod npix = i) \<or> j = b * npix + i" by simp
  next
    assume "(j < b * npix \<and> j mod npix = i) \<or> j = b * npix + i"
    with False have "j = b * npix + i" by simp
    with assms show "j < Suc b * npix \<and> j mod npix = i" by simp
  qed
qed

lemma update_closed_form:
  assumes "i < npix"
  shows "(map (\<lambda>j. if j < b * npix \<and> j mod npix = i then v j else ob ! j) [0..<length ob])
           [b * npix + i := v (b * npix + i)] =
         map (\<lambda>j. if j < Suc b * npix \<and> j mod npix = i then v j else ob ! j) [0..<length ob]"
proof (rule nth_equalityI)
  show "length ((map (\<lambda>j. if j < b * npix \<and> j mod npix = i then v j else ob ! j) [0..<length ob])
           [b * npix + i := v (b * npix + i)]) =
        length (map (\<lambda>j. if j < Suc b * npix \<and> j mod npix = i then v j else ob ! j) [0..<length ob])"
    by simp
next
  fix j
  assume "j < length ((map (\<lambda>j. if j < b * npix \<and> j mod npix = i then v j else ob ! j) [0..<length ob])
           [b * npix + i := v (b * npix + i)])"
  then have j: "j < length ob" by simp
  show "(map (\<lambda>j. if j < b * npix \<and> j mod npix = i then v j else ob ! j) [0..<length ob])
           [b * npix + i := v (b * npix + i)] ! j =
        map (\<lambda>j. if j < Suc b * npix \<and> j mod npix = i then v j else ob ! j) [0..<length ob] ! j"
    using j band_index_Suc [OF assms, of j b]
    by (auto simp: nth_list_update)
qed

lemma masked_bands:
  assumes "i < npix"
  shows "foldl (\<lambda>ob b. ob[b * npix + i := c]) ob [0..<n] =
         map (\<lambda>j. if j < n * npix \<and> j mod npix = i then c else ob ! j) [0..<length ob]"
proof (induction n)
  case 0
  show ?case by (simp add: map_nth)
next
  case (Suc n)
  show ?case
    using update_closed_form [OF assms, of n "\<lambda>j. c" ob]
    by (simp add: Suc)
qed

lemma day_bands:
  fixes r t :: "int \<Rightarrow> int \<Rightarrow> real"
  assumes "i < npix"
  shows "foldl (\<lambda>s (m, d). case s of (k, ob) \<Rightarrow>
             (Suc k, ob[(k * 2) * npix + i := r m d, (k * 2 + 1) * npix + i := t m d]))
           (0, ob) ds =
         (length ds,
          map (\<lambda>j. if j < (2 * length ds) * npix \<and> j mod npix = i
                    then (if even (j div npix) then r (fst (ds ! (j div npix div 2))) (snd (ds ! (j div npix div 2)))
                          else t (fst (ds ! (j div npix div 2))) (snd (ds ! (j div npix div 2))))
                    else ob ! j) [0..<length ob])"
proof (induction ds rule: rev_induct)
  case Nil
  show ?case by (simp add: map_nth)
next
  case (snoc md ds)
  obtain m d where md: "md = (m, d)" by (cases md)
  define K where "K = length ds"
  define v where "v = (\<lambda>(xs :: (int \<times> int) list) j.
       if even (j div npix) then r (fst (xs ! (j div npix div 2))) (snd (xs ! (j div npix div 2)))
       else t (fst (xs ! (j div npix div 2))) (snd (xs ! (j div npix div 2))))"
  define L where "L = (\<lambda>n xs. map (\<lambda>j. if j < n * npix \<and> j mod npix = i then v xs j else ob ! j)
                                 [0..<length ob])"
  define F where "F = (\<lambda>(s :: nat \<times> real list) (md :: int \<times> int). case md of (m, d) \<Rightarrow> case s of (k, ob) \<Rightarrow>
             (Suc k, ob[(k * 2) * npix + i := r m d, (k * 2 + 1) * npix + i := t m d]))"
  have IH: "foldl F (0, ob) ds = (K, L (2 * K) ds)"
    using snoc.IH unfolding F_def K_def L_def v_def by simp
  have old: "L (2 * K) ds = L (2 * K) (ds @ [md])"
    unfolding L_def
  proof (rule map_cong [OF refl])
    fix j
    show "(if j < (2 * K) * npix \<and> j mod npix = i then v ds j else ob ! j) =
          (if j < (2 * K) * npix \<and> j mod npix = i then v (ds @ [md]) j else ob ! j)"
    proof (cases "j < (2 * K) * npix")
      case True
      then have "j div npix < 2 * K"
        by (simp add: less_mult_imp_div_less)
      then have "j div npix div 2 < length ds" by (simp add: K_def)
      then show ?thesis by (simp add: v_def nth_append)
    next
      case False
      then show ?thesis by simp
    qed
  qed
  have v0: "v (ds @ [md]) ((2 * K) * npix + i) = r m d"
    using band_index [OF assms, of "2 * K"] by (simp add: v_def md K_def)
  have v1: "v (ds @ [md]) (Suc (2 * K) * npix + i) = t m d"
    using band_index [OF assms, of "Suc (2 * K)"] by (simp add: v_def md K_def del: mult_Suc)
  have step1: "(L (2 * K) (ds @ [md]))[(2 * K) * npix + i := r m d] = L (Suc (2 * K)) (ds @ [md])"
    using update_closed_form [OF assms, of "2 * K" "v (ds @ [md])" ob] unfolding L_def by (simp only: v0)
  have step2: "(L (Suc (2 * K)) (ds @ [md]))[Suc (2 * K) * npix + i := t m d] =
               L (Suc (Suc (2 * K))) (ds @ [md])"
    using update_closed_form [OF assms, of "Suc (2 * K)" "v (ds @ [md])" ob] unfolding L_def by (simp only: v1)
  have "foldl F (0, ob) (ds @ [md]) = F (K, L (2 * K) (ds @ [md])) md"
    by (simp add: IH old [symmetric])
  also have "\<dots> = (Suc K, (L (2 * K) (ds @ [md]))[(2 * K) * npix + i := r m d,
                         Suc (2 * K) * npix + i := t m d])"
    by (simp add: F_def md mult.commute)
  also have "\<dots> = (Suc K, L (Suc (Suc (2 * K))) (ds @ [md]))"
    by (simp only: step1 step2)
  also have "\<dots> = (length (ds @ [md]), L (2 * length (ds @ [md])) (ds @ [md]))"
    by (simp add: K_def)
  finally show ?case
    unfolding F_def L_def v_def by simp
qed

lemma rasterPixel_closed:
  assumes i: "i < cbx * cby" and nb: "numBands = 2 * length (yearDates isLeap)"
  shows "rasterPixel calc gt nodata year isLeap numBands x y cbx cby demBlock i ob =
     map (\<lambda>j. if j < numBands * (cbx * cby) \<and> j mod (cbx * cby) = i
               then rasterValue calc gt nodata year isLeap x y cbx demBlock i (j div (cbx * cby))
               else ob ! j) [0..<length ob]"
proof (cases "isnan (demBlock i) \<or> feq (demBlock i) nodata")
  case True
  then show ?thesis
    using masked_bands [OF i, of NODATA_VALUE ob numBands]
    by (simp add: rasterPixel_def rasterValue_def Let_def)
next
  case False
  obtain lon lat where ll: "pixelToGeo gt (int x + int (i mod cbx)) (int y + int (i div cbx)) = (lon, lat)"
    by (cases "pixelToGeo gt (int x + int (i mod cbx)) (int y + int (i div cbx))")
  have body: "(\<lambda>s (m, d). (case s of (currentDayOfYear', ob) \<Rightarrow>
                 let currentDayOfYear' = currentDayOfYear' + 1;
                     sunrise = calcSunrise calc lat lon (float_value (demBlock i)) year m d;
                     sunset = calcSunset calc lat lon (float_value (demBlock i)) year m d;
                     sunriseBandIdx = (currentDayOfYear' - 1) * 2;
                     sunsetBandIdx = sunriseBandIdx + 1
                 in (currentDayOfYear',
                     ob[sunriseBandIdx * (cbx * cby) + i := sunrise,
                        sunsetBandIdx * (cbx * cby) + i := sunset]))) =
              (\<lambda>s (m, d). case s of (k, ob) \<Rightarrow>
                 (Suc k, ob[(k * 2) * (cbx * cby) + i := calcSunrise calc lat lon (float_value (demBlock i)) year m d,
                            (k * 2 + 1) * (cbx * cby) + i := calcSunset calc lat lon (float_value (demBlock i)) year m d]))"
    by (simp add: Let_def fun_eq_iff split: prod.split)
  have "rasterPixel calc gt nodata year isLeap numBands x y cbx cby demBlock i ob =
        snd (foldl (\<lambda>s (m, d). case s of (k, ob) \<Rightarrow>
                 (Suc k, ob[(k * 2) * (cbx * cby) + i := calcSunrise calc lat lon (float_value (demBlock i)) year m d,
                            (k * 2 + 1) * (cbx * cby) + i := calcSunset calc lat lon (float_value (demBlock i)) year m d]))
              (0, ob) (yearDates isLeap))"
    using False by (simp add: rasterPixel_def ll forEachDay_flat body [symmetric] Let_def)
  also have "\<dots> = map (\<lambda>j. if j < numBands * (cbx * cby) \<and> j mod (cbx * cby) = i
               then rasterValue calc gt nodata year isLeap x y cbx demBlock i (j div (cbx * cby))
               else ob ! j) [0..<length ob]"
    unfolding day_bands [OF i] using False
    by (simp add: nb rasterValue_def ll Let_def)
  finally show ?thesis .
qed

lemma pixelPass_single:
  assumes body: "\<And>i ob. i \<in> set sched \<Longrightarrow>
                   body i ob = map (\<lambda>j. if P i j then v j else ob ! j) [0..<length ob]"
  shows "pixelPass sched body ob =
         map (\<lambda>j. if (\<exists>i\<in>set sched. P i j) then v j else ob ! j) [0..<length ob]"
  using body
proof (induction sched arbitrary: ob)
  case Nil
  show ?case by (simp add: pixelPass_Nil map_nth)
next
  case (Cons i sched)
  let ?ob1 = "map (\<lambda>j. if P i j then v j else ob ! j) [0..<length ob]"
  have "pixelPass (i # sched) body ob = pixelPass sched body ?ob1"
    by (simp add: pixelPass_Cons Cons.prems)
  also have "\<dots> = map (\<lambda>j. if (\<exists>i\<in>set sched. P i j) then v j else ?ob1 ! j) [0..<length ?ob1]"
    by (rule Cons.IH) (simp add: Cons.prems)
  also have "\<dots> = map (\<lambda>j. if (\<exists>i\<in>set (i # sched). P i j) then v j else ob ! j) [0..<length ob]"
    by auto
  finally show ?case .
qed

lemma rasterPass:
  assumes sched: "set sched \<subseteq> {0..<cbx * cby}" and nb: "numBands = 2 * length (yearDates isLeap)"
  shows "pixelPass sched (rasterPixel calc gt nodata year isLeap numBands x y cbx cby demBlock) ob =
     map (\<lambda>j. if j < numBands * (cbx * cby) \<and> j mod (cbx * cby) \<in> set sched
               then rasterValue calc gt nodata year isLeap x y cbx demBlock (j mod (cbx * cby))
                      (j div (cbx * cby))
               else ob ! j) [0..<length ob]"
proof -
  have "pixelPass sched (rasterPixel calc gt nodata year isLeap numBands x y cbx cby demBlock) ob =
        map (\<lambda>j. if (\<exists>i\<in>set sched. j < numBands * (cbx * cby) \<and> j mod (cbx * cby) = i)
                  then rasterValue calc gt nodata year isLeap x y cbx demBlock (j mod (cbx * cby))
                         (j div (cbx * cby))
                  else ob ! j) [0..<length ob]"
  proof (rule pixelPass_single)
    fix i ob
    assume "i \<in> set sched"
    then have "i < cbx * cby" using sched by auto
    from rasterPixel_closed [OF this nb]
    show "rasterPixel calc gt nodata year isLeap numBands x y cbx cby demBlock i ob =
          map (\<lambda>j. if j < numBands * (cbx * cby) \<and> j mod (cbx * cby) = i
                    then rasterValue calc gt nodata year isLeap x y cbx demBlock (j mod (cbx * cby))
                           (j div (cbx * cby))
                    else ob ! j) [0..<length ob]"
      by (auto intro!: map_cong)
  qed
  also have "\<dots> = map (\<lambda>j. if j < numBands * (cbx * cby) \<and> j mod (cbx * cby) \<in> set sched
               then rasterValue calc gt nodata year isLeap x y cbx demBlock (j mod (cbx * cby))
                      (j div (cbx * cby))
               else ob ! j) [0..<length ob]"
    by (auto intro!: map_cong)
  finally show ?thesis .
qed

lemma length_le_bytes [simp]: "length (le_bytes n w) = n"
  by (simp add: le_bytes_def)

lemma length_write_int32 [simp]: "length (write_int32 v) = 4"
  by (simp add: write_int32_def)

lemma length_write_int16s [simp]: "length (write_int16s buf) = 2 * length buf"
  by (induction buf) (simp_all add: write_int16s_def)

lemma length_write_doubles [simp]: "length (write_doubles ds) = 8 * length ds"
  by (induction ds) (simp_all add: write_doubles_def)

lemma length_magic [simp]: "length magic = 5"
  by (simp add: magic_def)

lemma length_streamHeader: "length (streamHeader w h days gt) = 17 + 8 * length gt"
  by (simp add: streamHeader_def)

lemma length_dayBlock:
  "length (dayBlock calc gt w n nodata demData year kmd) = 4 + 2 * n + 2 * n"
  by (cases kmd) (simp add: dayBlock_def)

lemma le_bytes_Suc: "le_bytes (Suc n) w = ucast w # le_bytes n (drop_bit 8 w)"
proof -
  have "[0..<Suc n] = 0 # map Suc [0..<n]"
    by (simp add: upt_conv_Cons map_Suc_upt del: upt_Suc)
  then show ?thesis
    by (simp add: le_bytes_def comp_def drop_bit_drop_bit add.commute del: upt_Suc)
qed

lemma read_le_Cons: "read_le (b # bs) = ucast b OR push_bit 8 (read_le bs)"
  by (simp add: read_le_def)

lemma read_le_bytes: "read_le (le_bytes n w) = take_bit (8 * n) w"
proof (induction n arbitrary: w)
  case 0
  show ?case by (simp add: le_bytes_def read_le_def)
next
  case (Suc n)
  have "read_le (le_bytes (Suc n) w) =
        ucast (ucast w :: 8 word) OR push_bit 8 (take_bit (8 * n) (drop_bit 8 w))"
    by (simp add: le_bytes_Suc read_le_Cons Suc)
  also have "\<dots> = take_bit (8 * Suc n) w"
    by (rule bit_word_eqI) (auto simp: bit_simps)
  finally show ?case .
qed

lemma read_le_bytes_8: "read_le (le_bytes 8 w) = (w :: 64 word)"
proof -
  have "take_bit 64 w = w" by (rule take_bit_word_eq_self) simp
  then show ?thesis by (simp add: read_le_bytes)
qed

lemma read_write_doubles: "read_doubles (length ds) (write_doubles ds) = ds"
  by (induction ds) (simp_all add: write_doubles_def read_le_bytes_8)

lemma days_spec: "(if isLeapYear year then 366 else 365) = spec_daysInYear year"
  by (simp add: spec_daysInYear_def isLeapYear_gregorian)

lemma days_spec_int: "(if isLeapYear year then 366 else 365) = int (spec_daysInYear year)"
  by (simp add: spec_daysInYear_def isLeapYear_gregorian)

lemma length_yearDates_spec: "length (yearDates (isLeapYear year)) = spec_daysInYear year"
  by (simp add: length_yearDates days_spec)

lemma zip_index: "zip [1..<Suc (length xs)] xs = map (\<lambda>k. (Suc k, xs ! k)) [0..<length xs]"
  by (rule nth_equalityI) (simp_all del: upt_Suc)

lemma streamBinaryOutput_output:
  assumes "GDALOpen env inputPath = Some ds"
    and "RasterIO_Read ds 0 0 (RasterXSize ds) (RasterYSize ds) = Some demData"
  shows "fst (streamBinaryOutput env inputPath year tz) = True"
    and "fst (snd (streamBinaryOutput env inputPath year tz)) =
           streamHeader (RasterXSize ds) (RasterYSize ds) (int (spec_daysInYear year))
             (take 6 (GeoTransform ds)) #
           map (\<lambda>k. dayBlock (solarCalculator tz) (GeoTransform ds) (RasterXSize ds)
                       (RasterXSize ds * RasterYSize ds) (NoDataValue ds) demData year
                       (Suc k, yearDates (isLeapYear year) ! k))
             [0..<spec_daysInYear year]"
proof -
  note out = streamWith_output [OF assms, of "solarCalculator tz" year]
  show "fst (streamBinaryOutput env inputPath year tz) = True"
    using out by (simp add: streamBinaryOutput_def)
  have z: "zip [1..<Suc (length (yearDates (isLeapYear year)))] (yearDates (isLeapYear year)) =
           map (\<lambda>k. (Suc k, yearDates (isLeapYear year) ! k)) [0..<spec_daysInYear year]"
    unfolding zip_index by (simp only: length_yearDates_spec)
  show "fst (snd (streamBinaryOutput env inputPath year tz)) =
           streamHeader (RasterXSize ds) (RasterYSize ds) (int (spec_daysInYear year))
             (take 6 (GeoTransform ds)) #
           map (\<lambda>k. dayBlock (solarCalculator tz) (GeoTransform ds) (RasterXSize ds)
                       (RasterXSize ds * RasterYSize ds) (NoDataValue ds) demData year
                       (Suc k, yearDates (isLeapYear year) ! k))
             [0..<spec_daysInYear year]"
    unfolding streamBinaryOutput_def out [THEN conjunct2] z days_spec_int
    by (simp add: comp_def del: upt_Suc)
qed

text \<open>
  Claim C4 (amended).  When the input opens and is read, streaming mode flushes the header
  once: the magic \<open>SOLAR\<close>, the three 32-bit integers width, height and days in the year,
  and the six geotransform coefficients as 64-bit floats, 65 bytes in all.  It is followed
  by exactly as many blocks as the year has days, in increasing day order; block \<open>k\<close> is
  the 32-bit day index \<open>k\<close> (from 1), the sunrise array and the sunset array as 16-bit
  integers, that is \<open>2 * width * height * 2\<close> bytes after the 4-byte day index.
\<close>

theorem stream_output_layout:
  assumes "GDALOpen env inputPath = Some ds"
    and "RasterIO_Read ds 0 0 (RasterXSize ds) (RasterYSize ds) = Some demData"
    and "length (GeoTransform ds) = 6"
  shows "fst (snd (streamBinaryOutput env inputPath year tz)) =
           (magic @ write_int32 (int (RasterXSize ds)) @ write_int32 (int (RasterYSize ds)) @
            write_int32 (int (spec_daysInYear year)) @ write_doubles (GeoTransform ds)) #
           map (\<lambda>k. dayBlock (solarCalculator tz) (GeoTransform ds) (RasterXSize ds)
                       (RasterXSize ds * RasterYSize ds) (NoDataValue ds) demData year
                       (Suc k, yearDates (isLeapYear year) ! k))
             [0..<spec_daysInYear year] \<and>
         length (magic @ write_int32 (int (RasterXSize ds)) @ write_int32 (int (RasterYSize ds)) @
                 write_int32 (int (spec_daysInYear year)) @ write_doubles (GeoTransform ds)) = 65 \<and>
         (\<forall>k md. take 4 (dayBlock (solarCalculator tz) (GeoTransform ds) (RasterXSize ds)
                       (RasterXSize ds * RasterYSize ds) (NoDataValue ds) demData year (k, md)) =
                   write_int32 (int k) \<and>
                 length (drop 4 (dayBlock (solarCalculator tz) (GeoTransform ds) (RasterXSize ds)
                       (RasterXSize ds * RasterYSize ds) (NoDataValue ds) demData year (k, md))) =
                   2 * (RasterXSize ds * RasterYSize ds) * 2)"
proof -
  have a: "take 6 (GeoTransform ds) = GeoTransform ds" using assms(3) by simp
  have b: "take 4 (dayBlock calc gt w n nodata dd year (k, md)) = write_int32 (int k)"
    for calc gt w n nodata dd k md
    by (cases md) (simp add: dayBlock_def)
  show ?thesis
    using streamBinaryOutput_output(2) [OF assms(1,2), of year tz] assms(3)
    by (simp add: a b streamHeader_def length_dayBlock del: upt_Suc)
qed

lemma nodata_pixel_open:
  "GDALOpen nodata_pixel_env p = Some nodata_pixel_dataset"
  "RasterIO_Read nodata_pixel_dataset 0 0 (RasterXSize nodata_pixel_dataset) (RasterYSize nodata_pixel_dataset) =
     Some (\<lambda>i. Val (- 9999))"
  "length (GeoTransform nodata_pixel_dataset) = 6"
  "Create nodata_pixel_env q = Created"
  "RasterXSize nodata_pixel_dataset = 1" "RasterYSize nodata_pixel_dataset = 1"
  "NoDataValue nodata_pixel_dataset = Val (- 9999)"
  by (simp_all add: nodata_pixel_env_def nodata_pixel_dataset_def)

lemma nodata_pixel_block:
  "dayBlock calc gt w (Suc 0) (Val (- 9999)) (\<lambda>i. Val (- 9999)) year (k, md) =
     write_int32 (int k) @ [255, 255, 255, 255]"
proof -
  have "le_bytes 2 (- 1 :: 16 word) = [255, 255]"
    by code_simp
  then show ?thesis
    by (cases md) (simp add: dayBlock_def streamValues_def write_int16s_def)
qed

theorem stream_output_layout_witness:
  "length (fst (snd (streamBinaryOutput nodata_pixel_env ''dem.tif'' 2023 1))) = 1 + 365 \<and>
   length (hd (fst (snd (streamBinaryOutput nodata_pixel_env ''dem.tif'' 2023 1)))) = 65 \<and>
   fst (snd (streamBinaryOutput nodata_pixel_env ''dem.tif'' 2023 1)) ! 365 =
     [109, 1, 0, 0, 255, 255, 255, 255]"
proof -
  note th = stream_output_layout [OF nodata_pixel_open(1,2,3), of "''dem.tif''" 2023 1]
  have d: "spec_daysInYear 2023 = 365" by (simp add: spec_daysInYear_def)
  have i: "write_int32 365 = [109, 1, 0, 0]"
    by code_simp
  show ?thesis
    using th [THEN conjunct1] th [THEN conjunct2, THEN conjunct1]
    by (simp add: d nodata_pixel_open nodata_pixel_block i del: upt_Suc)
qed

theorem stream_block_size_counterexample:
  "length (drop 4 (fst (snd (streamBinaryOutput nodata_pixel_env ''dem.tif'' 2023 1)) ! 1)) = 2 * 1 * 1 * 2 \<and>
   length (drop 4 (fst (snd (streamBinaryOutput nodata_pixel_env ''dem.tif'' 2023 1)) ! 1)) \<noteq> 8 + 2 * 1 * 1 * 2"
proof -
  have d: "spec_daysInYear 2023 = 365" by (simp add: spec_daysInYear_def)
  have "fst (snd (streamBinaryOutput nodata_pixel_env ''dem.tif'' 2023 1)) ! 1 =
        write_int32 1 @ [255, 255, 255, 255]"
    unfolding streamBinaryOutput_output(2) [OF nodata_pixel_open(1,2)]
    by (simp add: d nodata_pixel_open nodata_pixel_block del: upt_Suc)
  then show ?thesis by simp
qed

lemma outline_CreateDataset: "outline e = CreateDataset od \<Longrightarrow> e = CreateDataset od"
  by (cases e) simp_all

lemma processDEM_created:
  assumes "GDALOpen env inputPath = Some ds" "Create env outputPath = Created"
  shows "\<exists>od. hd (snd (processDEM env inputPath outputPath year tz)) = CreateDataset od \<and>
              od_geoTransform od = GeoTransform ds \<and>
              od_projection od = ProjectionRef ds \<and>
              od_numBands od = 2 * spec_daysInYear year"
proof -
  from processWith_created [OF assms, of year "solarCalculator tz"]
  obtain od where od: "od_geoTransform od = GeoTransform ds" "od_projection od = ProjectionRef ds"
      "od_numBands od = (if isLeapYear year then 366 else 365) * 2"
      "map outline (snd (processWith (solarCalculator tz) env inputPath outputPath year)) =
         CreateDataset od #
         concat (map (tileOutline env ds) (tileOrigins (RasterXSize ds) (RasterYSize ds)))"
    by auto
  from od(4) obtain e es where es: "snd (processWith (solarCalculator tz) env inputPath outputPath year) = e # es"
    and "outline e = CreateDataset od"
    by (cases "snd (processWith (solarCalculator tz) env inputPath outputPath year)") auto
  then have "e = CreateDataset od" by (simp add: outline_CreateDataset)
  with es od(1,2,3) show ?thesis
    by (auto simp: processDEM_def days_spec)
qed

text \<open>
  Claim C7.  For every year both modes take 366 days exactly when
  \<open>(year % 4 == 0 && year % 100 != 0) || year % 400 == 0\<close> and 365 otherwise: this is the
  day count in the streaming header, the number of streamed blocks, and half the number of
  bands of the raster output.  It is 366 for 2024 and 2000, and 365 for 2023 and 1900.
\<close>

theorem days_in_year:
  assumes "GDALOpen env inputPath = Some ds"
    and "RasterIO_Read ds 0 0 (RasterXSize ds) (RasterYSize ds) = Some demData"
    and "Create env outputPath = Created"
  shows "take 4 (drop 13 (hd (fst (snd (streamBinaryOutput env inputPath year tz))))) =
           write_int32 (int (spec_daysInYear year)) \<and>
         length (tl (fst (snd (streamBinaryOutput env inputPath year tz)))) = spec_daysInYear year \<and>
         (\<exists>od. hd (snd (processDEM env inputPath outputPath year tz)) = CreateDataset od \<and>
               od_numBands od = 2 * spec_daysInYear year) \<and>
         (isLeapYear year \<longleftrightarrow> spec_daysInYear year = 366) \<and>
         spec_daysInYear 2024 = 366 \<and> spec_daysInYear 2000 = 366 \<and>
         spec_daysInYear 2023 = 365 \<and> spec_daysInYear 1900 = 365"
proof -
  have h: "take 4 (drop 13 (streamHeader w h d gt)) = write_int32 d" for w h d gt
    by (simp add: streamHeader_def)
  have a: "take 4 (drop 13 (hd (fst (snd (streamBinaryOutput env inputPath year tz))))) =
           write_int32 (int (spec_daysInYear year))"
    unfolding streamBinaryOutput_output(2) [OF assms(1,2)] by (simp add: h)
  have b: "length (tl (fst (snd (streamBinaryOutput env inputPath year tz)))) = spec_daysInYear year"
    unfolding streamBinaryOutput_output(2) [OF assms(1,2)] by simp
  have c: "\<exists>od. hd (snd (processDEM env inputPath outputPath year tz)) = CreateDataset od \<and>
               od_numBands od = 2 * spec_daysInYear year"
    using processDEM_created [OF assms(1,3), of year tz] by blast
  have d: "isLeapYear year \<longleftrightarrow> spec_daysInYear year = 366"
    by (simp add: spec_daysInYear_def isLeapYear_gregorian)
  have e: "spec_daysInYear 2024 = 366" "spec_daysInYear 2000 = 366"
          "spec_daysInYear 2023 = 365" "spec_daysInYear 1900 = 365"
    by (simp_all add: spec_daysInYear_def)
  from a b c d e show ?thesis by blast
qed

theorem days_in_year_witness:
  "take 4 (drop 13 (hd (fst (snd (streamBinaryOutput nodata_pixel_env ''dem.tif'' 2024 1))))) =
     [110, 1, 0, 0] \<and>
   length (tl (fst (snd (streamBinaryOutput nodata_pixel_env ''dem.tif'' 2024 1)))) = 366 \<and>
   (\<exists>od. hd (snd (processDEM nodata_pixel_env ''dem.tif'' ''solar.tif'' 2024 1)) = CreateDataset od \<and>
         od_numBands od = 732) \<and>
   isLeapYear 2024 \<and> \<not> isLeapYear 1900"
proof -
  have i: "write_int32 366 = [110, 1, 0, 0]" by code_simp
  have s: "spec_daysInYear 2024 = 366" "spec_daysInYear 1900 = 365" by (simp_all add: spec_daysInYear_def)
  note th = days_in_year [OF nodata_pixel_open(1) [of "''dem.tif''"] nodata_pixel_open(2)
      nodata_pixel_open(4) [of "''solar.tif''"]]
  show ?thesis
    using th [where year = 2024 and tz = 1] th [where year = 1900 and tz = 1]
    by (simp add: s i)
qed

text \<open>
  Claim C8.  The six geotransform coefficients of the input raster are the ones recorded
  in both outputs: the raster output dataset is given the same six 64-bit patterns (and
  the same projection), and reading back the six 64-bit floats that follow the first 17
  bytes of the streaming header gives the same six patterns.
\<close>

theorem geotransform_preserved:
  assumes "GDALOpen env inputPath = Some ds"
    and "RasterIO_Read ds 0 0 (RasterXSize ds) (RasterYSize ds) = Some demData"
    and "Create env outputPath = Created"
    and "length (GeoTransform ds) = 6"
  shows "read_doubles 6 (drop 17 (hd (fst (snd (streamBinaryOutput env inputPath year tz))))) =
           GeoTransform ds \<and>
         (\<exists>od. hd (snd (processDEM env inputPath outputPath year tz)) = CreateDataset od \<and>
               od_geoTransform od = GeoTransform ds)"
proof -
  have "drop 17 (streamHeader w h d gt) = write_doubles gt" for w h d gt
    by (simp add: streamHeader_def)
  then have "drop 17 (hd (fst (snd (streamBinaryOutput env inputPath year tz)))) =
        write_doubles (GeoTransform ds)"
    unfolding streamBinaryOutput_output(2) [OF assms(1,2)] using assms(4) by simp
  moreover have "read_doubles 6 (write_doubles (GeoTransform ds)) = GeoTransform ds"
    using read_write_doubles [of "GeoTransform ds"] by (simp add: assms(4))
  ultimately show ?thesis
    using processDEM_created [OF assms(1,3), of year tz] by auto
qed

theorem geotransform_preserved_witness:
  "read_doubles 6 (drop 17 (hd (fst (snd (streamBinaryOutput nodata_pixel_env ''dem.tif'' 2024 1))))) =
     [0, 0x3FF0000000000000, 0, 0, 0, 0xBFF0000000000000] \<and>
   (\<exists>od. hd (snd (processDEM nodata_pixel_env ''dem.tif'' ''solar.tif'' 2024 1)) = CreateDataset od \<and>
         od_geoTransform od = [0, 0x3FF0000000000000, 0, 0, 0, 0xBFF0000000000000])"
proof -
  have g: "GeoTransform nodata_pixel_dataset = [0, 0x3FF0000000000000, 0, 0, 0, 0xBFF0000000000000]"
    by (simp add: nodata_pixel_dataset_def)
  show ?thesis
    using geotransform_preserved [OF nodata_pixel_open(1) [of "''dem.tif''"] nodata_pixel_open(2)
      nodata_pixel_open(4) [of "''solar.tif''"] nodata_pixel_open(3), where year = 2024 and tz = 1]
    by (simp only: g)
qed

lemma outline_Log: "outline e = Log msg \<Longrightarrow> e = Log msg"
  by (cases e) simp_all

lemma tileOutline_cases:
  "e \<in> set (tileOutline env ds (x, y)) \<Longrightarrow>
     (\<exists>w h. e = ReadBlock x y w h) \<or> e = Log (ErrReadBlock x y) \<or>
     (\<exists>w h ok. e = WriteBlock x y w h [] ok \<and>
        RasterIO_Read ds x y (min 512 (RasterXSize ds - x)) (min 512 (RasterYSize ds - y)) \<noteq> None) \<or>
     e = Log (ErrWriteBlock x y)"
  by (auto simp: tileOutline_def Let_def split: option.splits if_splits)

text \<open>
  Claim C6.  In raster mode an input that cannot be opened makes \<open>processDEM\<close> return
  failure with nothing but the error message: no output is created.  Once input and output
  exist, \<open>processDEM\<close> returns success whatever tile reads and writes fail: every tile is
  visited in loop order; a tile whose read fails is logged and gets no write, and the loop
  goes on with the next tile; a tile whose write fails is logged, and the loop goes on.
\<close>

theorem tile_failures_tolerated:
  "(GDALOpen env inputPath = None \<longrightarrow>
      processDEM env inputPath outputPath year tz = (False, [Log (ErrOpenInput inputPath)])) \<and>
   (GDALOpen env inputPath = Some ds \<and> Create env outputPath = Created \<longrightarrow>
      fst (processDEM env inputPath outputPath year tz) = True \<and>
      (\<exists>od. map outline (snd (processDEM env inputPath outputPath year tz)) =
             CreateDataset od #
             concat (map (tileOutline env ds) (tileOrigins (RasterXSize ds) (RasterYSize ds)))) \<and>
      (\<forall>x y. (x, y) \<in> set (tileOrigins (RasterXSize ds) (RasterYSize ds)) \<and>
             RasterIO_Read ds x y (min 512 (RasterXSize ds - x)) (min 512 (RasterYSize ds - y)) = None \<longrightarrow>
             Log (ErrReadBlock x y) \<in> set (snd (processDEM env inputPath outputPath year tz)) \<and>
             (\<forall>w h buf ok. WriteBlock x y w h buf ok \<notin>
                  set (snd (processDEM env inputPath outputPath year tz)))) \<and>
      (\<forall>x y. (x, y) \<in> set (tileOrigins (RasterXSize ds) (RasterYSize ds)) \<and>
             RasterIO_Read ds x y (min 512 (RasterXSize ds - x)) (min 512 (RasterYSize ds - y)) \<noteq> None \<and>
             \<not> RasterIO_Write env x y \<longrightarrow>
             Log (ErrWriteBlock x y) \<in> set (snd (processDEM env inputPath outputPath year tz))))"
proof (intro conjI impI)
  assume "GDALOpen env inputPath = None"
  then show "processDEM env inputPath outputPath year tz = (False, [Log (ErrOpenInput inputPath)])"
    by (simp add: processDEM_def processWith_open_failed)
next
  assume a: "GDALOpen env inputPath = Some ds \<and> Create env outputPath = Created"
  define evs where "evs = snd (processDEM env inputPath outputPath year tz)"
  define tiles where "tiles = tileOrigins (RasterXSize ds) (RasterYSize ds)"
  from processWith_created [of env inputPath ds outputPath year "solarCalculator tz"] a
  obtain od where ok: "fst (processDEM env inputPath outputPath year tz) = True"
    and out: "map outline evs = CreateDataset od # concat (map (tileOutline env ds) tiles)"
    unfolding processDEM_def evs_def tiles_def by auto
  show "fst (processDEM env inputPath outputPath year tz) = True" by (rule ok)
  show "\<exists>od. map outline (snd (processDEM env inputPath outputPath year tz)) =
             CreateDataset od #
             concat (map (tileOutline env ds) (tileOrigins (RasterXSize ds) (RasterYSize ds)))"
    using out unfolding evs_def tiles_def by (intro exI [of _ od])
  have mem: "outline e \<in> set (map outline evs)" if "e \<in> set evs" for e
    using that by simp
  have pre: "\<exists>e \<in> set evs. outline e = e'" if "e' \<in> set (tileOutline env ds t)" "t \<in> set tiles" for e' t
  proof -
    from that have "e' \<in> set (map outline evs)" unfolding out by auto
    then show ?thesis by auto
  qed
  show "\<forall>x y. (x, y) \<in> set (tileOrigins (RasterXSize ds) (RasterYSize ds)) \<and>
             RasterIO_Read ds x y (min 512 (RasterXSize ds - x)) (min 512 (RasterYSize ds - y)) = None \<longrightarrow>
             Log (ErrReadBlock x y) \<in> set (snd (processDEM env inputPath outputPath year tz)) \<and>
             (\<forall>w h buf ok. WriteBlock x y w h buf ok \<notin>
                  set (snd (processDEM env inputPath outputPath year tz)))"
  proof (intro allI impI, elim conjE)
    fix x y
    assume t: "(x, y) \<in> set (tileOrigins (RasterXSize ds) (RasterYSize ds))"
      and r: "RasterIO_Read ds x y (min 512 (RasterXSize ds - x)) (min 512 (RasterYSize ds - y)) = None"
    have "Log (ErrReadBlock x y) \<in> set (tileOutline env ds (x, y))"
      using r by (simp add: tileOutline_def Let_def)
    from pre [OF this] t obtain e where e: "e \<in> set evs" "outline e = Log (ErrReadBlock x y)"
      unfolding tiles_def by auto
    then have "e = Log (ErrReadBlock x y)" by (simp add: outline_Log)
    with e have l: "Log (ErrReadBlock x y) \<in> set evs" by simp
    have nw: "WriteBlock x y w h buf ok' \<notin> set evs" for w h buf ok'
    proof
      assume "WriteBlock x y w h buf ok' \<in> set evs"
      from mem [OF this] have "WriteBlock x y w h [] ok' \<in> set (map outline evs)" by simp
      then obtain t' where t': "t' \<in> set tiles" "WriteBlock x y w h [] ok' \<in> set (tileOutline env ds t')"
        unfolding out by auto
      obtain x' y' where xy: "t' = (x', y')" by (cases t')
      from tileOutline_cases [OF t'(2) [unfolded xy]] have "x' = x \<and> y' = y \<and>
          RasterIO_Read ds x y (min 512 (RasterXSize ds - x)) (min 512 (RasterYSize ds - y)) \<noteq> None"
        by auto
      with r show False by simp
    qed
    from l nw show "Log (ErrReadBlock x y) \<in> set (snd (processDEM env inputPath outputPath year tz)) \<and>
             (\<forall>w h buf ok. WriteBlock x y w h buf ok \<notin>
                  set (snd (processDEM env inputPath outputPath year tz)))"
      unfolding evs_def by blast
  qed
  show "\<forall>x y. (x, y) \<in> set (tileOrigins (RasterXSize ds) (RasterYSize ds)) \<and>
             RasterIO_Read ds x y (min 512 (RasterXSize ds - x)) (min 512 (RasterYSize ds - y)) \<noteq> None \<and>
             \<not> RasterIO_Write env x y \<longrightarrow>
             Log (ErrWriteBlock x y) \<in> set (snd (processDEM env inputPath outputPath year tz))"
  proof (intro allI impI, elim conjE)
    fix x y
    assume t: "(x, y) \<in> set (tileOrigins (RasterXSize ds) (RasterYSize ds))"
      and r: "RasterIO_Read ds x y (min 512 (RasterXSize ds - x)) (min 512 (RasterYSize ds - y)) \<noteq> None"
      and w: "\<not> RasterIO_Write env x y"
    have "Log (ErrWriteBlock x y) \<in> set (tileOutline env ds (x, y))"
      using r w by (auto simp: tileOutline_def Let_def)
    from pre [OF this] t obtain e where e: "e \<in> set evs" "outline e = Log (ErrWriteBlock x y)"
      unfolding tiles_def by auto
    then have "e = Log (ErrWriteBlock x y)" by (simp add: outline_Log)
    with e show "Log (ErrWriteBlock x y) \<in> set (snd (processDEM env inputPath outputPath year tz))"
      unfolding evs_def by simp
  qed
qed

lemma two_tiles: "tileOrigins 600 (Suc 0) = [(0, 0), (512, 0)]"
  by (simp add: tileOrigins_def blockStarts_def upt_rec)

theorem tile_failures_tolerated_witness:
  "processDEM failing_env ''missing.tif'' ''solar.tif'' 2024 1 =
     (False, [Log (ErrOpenInput ''missing.tif'')]) \<and>
   fst (processDEM failing_env ''dem.tif'' ''solar.tif'' 2024 1) = True \<and>
   (\<exists>od. map outline (snd (processDEM failing_env ''dem.tif'' ''solar.tif'' 2024 1)) =
      [CreateDataset od,
       ReadBlock 0 0 512 1, Log (ErrReadBlock 0 0),
       ReadBlock 512 0 88 1, WriteBlock 512 0 88 1 [] False, Log (ErrWriteBlock 512 0)])"
proof -
  have o: "GDALOpen failing_env ''missing.tif'' = None"
          "GDALOpen failing_env ''dem.tif'' = Some two_tile_dataset"
          "Create failing_env ''solar.tif'' = Created"
    by (simp_all add: failing_env_def)
  have t: "concat (map (tileOutline failing_env two_tile_dataset)
             (tileOrigins (RasterXSize two_tile_dataset) (RasterYSize two_tile_dataset))) =
           [ReadBlock 0 0 512 1, Log (ErrReadBlock 0 0),
            ReadBlock 512 0 88 1, WriteBlock 512 0 88 1 [] False, Log (ErrWriteBlock 512 0)]"
    by (simp add: two_tile_dataset_def two_tiles tileOutline_def failing_env_def)
  from tile_failures_tolerated [of failing_env "''missing.tif''" "''solar.tif''" 2024 1 two_tile_dataset]
  have a: "processDEM failing_env ''missing.tif'' ''solar.tif'' 2024 1 =
     (False, [Log (ErrOpenInput ''missing.tif'')])"
    using o by blast
  from tile_failures_tolerated [of failing_env "''dem.tif''" "''solar.tif''" 2024 1 two_tile_dataset]
  have b: "fst (processDEM failing_env ''dem.tif'' ''solar.tif'' 2024 1) = True \<and>
      (\<exists>od. map outline (snd (processDEM failing_env ''dem.tif'' ''solar.tif'' 2024 1)) =
             CreateDataset od #
             concat (map (tileOutline failing_env two_tile_dataset)
               (tileOrigins (RasterXSize two_tile_dataset) (RasterYSize two_tile_dataset))))"
    using o by blast
  from a b show ?thesis unfolding t by simp
qed

lemma interleaving_set:
  "interleaving chunks schedule \<Longrightarrow> set schedule = set (concat chunks)"
proof (induction rule: interleaving.induct)
  case (finished chunks)
  then show ?case by auto
next
  case (step t chunks i rest schedule)
  have c: "chunks = take t chunks @ (i # rest) # drop (Suc t) chunks"
    using step.hyps(1,2) by (metis id_take_nth_drop)
  have u: "chunks[t := rest] = take t chunks @ rest # drop (Suc t) chunks"
    using step.hyps(1) by (rule upd_conv_take_nth_drop)
  have "set (concat chunks) =
        set (concat (take t chunks @ (i # rest) # drop (Suc t) chunks))"
    using c by simp
  also have "\<dots> = insert i (set (concat (take t chunks @ rest # drop (Suc t) chunks)))"
    by auto
  also have "\<dots> = insert i (set (concat (chunks[t := rest])))"
    by (simp only: u)
  finally show ?case using step.IH by simp
qed

lemma two_threads: "interleaving [[0, 1], [2]] [2, 0, 1]"
proof -
  have "interleaving [[], []] []" by (rule interleaving.finished) simp
  then have "interleaving [[1], []] [1]"
    using interleaving.step [of 0 "[[1], []]" 1 "[]" "[]"] by simp
  then have "interleaving [[0, 1], []] [0, 1]"
    using interleaving.step [of 0 "[[0, 1], []]" 0 "[1]" "[1]"] by simp
  then show ?thesis
    using interleaving.step [of 1 "[[0, 1], [2]]" 2 "[]" "[0, 1]"] by simp
qed

text \<open>
  Claim C9.  The arrays produced by one pixel pass do not depend on the order in which the
  iterations of the parallel loop are run, hence not on the number of threads: for every
  interleaving of the chunks of any number of threads, the pass gives what the single-threaded order
  \<open>[0..<n]\<close> gives, in streaming mode (per day) and in raster mode (per tile).  In
  streaming mode entry \<open>i\<close> of either array is a function of pixel \<open>i\<close> alone.
\<close>

theorem schedule_independence:
  assumes "interleaving chunks schedule" and "set (concat chunks) = {0..<n}"
  shows "pixelPass schedule (streamPixel calc gt width nodata demData year m d) (A, B) =
           pixelPass [0..<n] (streamPixel calc gt width nodata demData year m d) (A, B) \<and>
         (length A = n \<and> length B = n \<longrightarrow>
            pixelPass schedule (streamPixel calc gt width nodata demData year m d) (A, B) =
              (map (\<lambda>i. fst (streamValues calc gt width nodata demData year m d i)) [0..<n],
               map (\<lambda>i. snd (streamValues calc gt width nodata demData year m d i)) [0..<n])) \<and>
         (n = cby * cbx \<longrightarrow>
            pixelPass schedule
              (rasterPixel calc gt nodata year (isLeapYear year)
                 ((if isLeapYear year then 366 else 365) * 2) x y cbx cby demBlock) ob =
            pixelPass [0..<cby * cbx]
              (rasterPixel calc gt nodata year (isLeapYear year)
                 ((if isLeapYear year then 366 else 365) * 2) x y cbx cby demBlock) ob)"
proof (intro conjI impI)
  show "pixelPass schedule (streamPixel calc gt width nodata demData year m d) (A, B) =
        pixelPass [0..<n] (streamPixel calc gt width nodata demData year m d) (A, B)"
    unfolding streamPass using interleaving_set [OF assms(1)] assms(2) by simp
next
  assume "length A = n \<and> length B = n"
  then show "pixelPass schedule (streamPixel calc gt width nodata demData year m d) (A, B) =
              (map (\<lambda>i. fst (streamValues calc gt width nodata demData year m d i)) [0..<n],
               map (\<lambda>i. snd (streamValues calc gt width nodata demData year m d i)) [0..<n])"
    using interleaving_set [OF assms(1)] assms(2) by (intro streamPass_full) simp_all
next
  assume n: "n = cby * cbx"
  have nb: "(if isLeapYear year then 366 else 365) * 2 = 2 * length (yearDates (isLeapYear year))"
    by (simp add: length_yearDates)
  have s: "set schedule = {0..<n}" using interleaving_set [OF assms(1)] assms(2) by simp
  have s1: "set schedule \<subseteq> {0..<cbx * cby}" using s n by (simp add: mult.commute)
  have s2: "set [0..<cby * cbx] \<subseteq> {0..<cbx * cby}" by (simp add: mult.commute)
  have e: "set schedule = set [0..<cby * cbx]" using s n by simp
  show "pixelPass schedule
              (rasterPixel calc gt nodata year (isLeapYear year)
                 ((if isLeapYear year then 366 else 365) * 2) x y cbx cby demBlock) ob =
            pixelPass [0..<cby * cbx]
              (rasterPixel calc gt nodata year (isLeapYear year)
                 ((if isLeapYear year then 366 else 365) * 2) x y cbx cby demBlock) ob"
    unfolding rasterPass [OF s1 nb] rasterPass [OF s2 nb] e ..
qed

theorem schedule_independence_witness:
  "interleaving [[0, 1], [2]] [2, 0, 1] \<and> set (concat [[0, 1], [2 :: nat]]) = {0..<3} \<and>
   pixelPass [2, 0, 1]
     (streamPixel (solarCalculator 1) [0, 0x3FF0000000000000, 0, 0, 0, 0xBFF0000000000000] 3
        (Val (- 9999)) (\<lambda>i. Val (real i * 100)) 2024 6 21) ([7, 7, 7], [7, 7, 7]) =
   pixelPass [0..<3]
     (streamPixel (solarCalculator 1) [0, 0x3FF0000000000000, 0, 0, 0, 0xBFF0000000000000] 3
        (Val (- 9999)) (\<lambda>i. Val (real i * 100)) 2024 6 21) ([7, 7, 7], [7, 7, 7]) \<and>
   pixelPass [2, 0, 1]
     (rasterPixel (solarCalculator 1) [0, 0x3FF0000000000000, 0, 0, 0, 0xBFF0000000000000]
        (Val (- 9999)) 2024 (isLeapYear 2024) ((if isLeapYear 2024 then 366 else 365) * 2) 0 0 3 1
        (\<lambda>i. Val (real i * 100))) (replicate (512 * 512 * 732) 0) =
   pixelPass [0..<1 * 3]
     (rasterPixel (solarCalculator 1) [0, 0x3FF0000000000000, 0, 0, 0, 0xBFF0000000000000]
        (Val (- 9999)) 2024 (isLeapYear 2024) ((if isLeapYear 2024 then 366 else 365) * 2) 0 0 3 1
        (\<lambda>i. Val (real i * 100))) (replicate (512 * 512 * 732) 0)"
proof -
  have s: "set (concat [[0, 1], [2 :: nat]]) = {0..<3}" by auto
  note th = schedule_independence [OF two_threads s, where cby = 1 and cbx = 3]
  from th [THEN conjunct1] th [THEN conjunct2, THEN conjunct2] s two_threads
  show ?thesis by simp
qed

lemma band_index_less:
  fixes i npix b numBands :: nat
  assumes "i < npix" "b < numBands"
  shows "b * npix + i < numBands * npix"
proof -
  have "b * npix + i < Suc b * npix" using assms(1) by simp
  also have "\<dots> \<le> numBands * npix" using assms(2) by (intro mult_le_mono1) simp
  finally show ?thesis .
qed

lemma rasterPixel_nth:
  assumes i: "i < cbx * cby" and nb: "numBands = 2 * length (yearDates isLeap)"
    and b: "b < numBands" and len: "numBands * (cbx * cby) \<le> length ob"
  shows "rasterPixel calc gt nodata year isLeap numBands x y cbx cby demBlock i ob ! (b * (cbx * cby) + i) =
         rasterValue calc gt nodata year isLeap x y cbx demBlock i b"
proof -
  have lt: "b * (cbx * cby) + i < numBands * (cbx * cby)"
    using i b by (rule band_index_less)
  then have "b * (cbx * cby) + i < length ob" using len by simp
  then show ?thesis
    unfolding rasterPixel_closed [OF i nb]
    using lt band_index [OF i, of b] by simp
qed

text \<open>
  Claim C5.  The two modes mask differently.  In streaming mode a pixel whose elevation is
  NaN, equals the no-data value or equals 0 gets \<open>-1\<close> for sunrise and for sunset, on
  every day and whatever the calculator is (it is not called); any other pixel gets the
  calculator's two results converted to minutes.  In raster mode a pixel whose elevation
  is NaN or equals the no-data value gets the no-data value in all \<open>2 * daysInYear\<close>
  bands, whatever the calculator is; any other pixel, elevation 0 included, gets the
  calculator's results: band \<open>2 * k\<close> the sunrise and band \<open>2 * k + 1\<close> the sunset of day
  \<open>k + 1\<close>.
\<close>

theorem masking_policy:
  assumes "i < cbx * cby"
    and "numBands = (if isLeapYear year then 366 else 365) * 2"
    and "numBands * (cbx * cby) \<le> length ob"
    and "pixelToGeo gt (int (x + i mod cbx)) (int (y + i div cbx)) = (lon, lat)"
    and "pixelToGeo gt (int (i mod width)) (int (i div width)) = (slon, slat)"
  shows "(isnan (demData i) \<or> feq (demData i) nodata \<or> feq (demData i) (Val 0) \<longrightarrow>
            streamPixel calc gt width nodata demData year m d i (A, B) = (A[i := - 1], B[i := - 1])) \<and>
         (\<not> (isnan (demData i) \<or> feq (demData i) nodata \<or> feq (demData i) (Val 0)) \<longrightarrow>
            streamPixel calc gt width nodata demData year m d i (A, B) =
              (A[i := (if calcSunrise calc slat slon (float_value (demData i)) year m d < 0 then - 1
                       else to_int16 (cround (calcSunrise calc slat slon (float_value (demData i)) year m d * 60)))],
               B[i := (if calcSunset calc slat slon (float_value (demData i)) year m d < 0 then - 1
                       else to_int16 (cround (calcSunset calc slat slon (float_value (demData i)) year m d * 60)))])) \<and>
         (isnan (demBlock i) \<or> feq (demBlock i) nodata \<longrightarrow>
            (\<forall>b < numBands.
               rasterPixel calc gt nodata year (isLeapYear year) numBands x y cbx cby demBlock i ob !
                 (b * (cbx * cby) + i) = NODATA_VALUE)) \<and>
         (\<not> (isnan (demBlock i) \<or> feq (demBlock i) nodata) \<longrightarrow>
            (\<forall>k < spec_daysInYear year.
               rasterPixel calc gt nodata year (isLeapYear year) numBands x y cbx cby demBlock i ob !
                 ((2 * k) * (cbx * cby) + i) =
                 calcSunrise calc lat lon (float_value (demBlock i)) year
                   (fst (yearDates (isLeapYear year) ! k)) (snd (yearDates (isLeapYear year) ! k)) \<and>
               rasterPixel calc gt nodata year (isLeapYear year) numBands x y cbx cby demBlock i ob !
                 ((2 * k + 1) * (cbx * cby) + i) =
                 calcSunset calc lat lon (float_value (demBlock i)) year
                   (fst (yearDates (isLeapYear year) ! k)) (snd (yearDates (isLeapYear year) ! k))))"
proof -
  have nb: "numBands = 2 * length (yearDates (isLeapYear year))"
    using assms(2) by (simp add: length_yearDates)
  have s1: "streamPixel calc gt width nodata demData year m d i (A, B) = (A[i := - 1], B[i := - 1])"
    if "isnan (demData i) \<or> feq (demData i) nodata \<or> feq (demData i) (Val 0)"
    using that by (simp add: streamPixel_def Let_def)
  have s2: "streamPixel calc gt width nodata demData year m d i (A, B) =
              (A[i := (if calcSunrise calc slat slon (float_value (demData i)) year m d < 0 then - 1
                       else to_int16 (cround (calcSunrise calc slat slon (float_value (demData i)) year m d * 60)))],
               B[i := (if calcSunset calc slat slon (float_value (demData i)) year m d < 0 then - 1
                       else to_int16 (cround (calcSunset calc slat slon (float_value (demData i)) year m d * 60)))])"
    if "\<not> (isnan (demData i) \<or> feq (demData i) nodata \<or> feq (demData i) (Val 0))"
    using that assms(5) by (simp add: streamPixel_def Let_def)
  have r1: "rasterPixel calc gt nodata year (isLeapYear year) numBands x y cbx cby demBlock i ob !
          (b * (cbx * cby) + i) = NODATA_VALUE"
    if m: "isnan (demBlock i) \<or> feq (demBlock i) nodata" and b: "b < numBands" for b
    unfolding rasterPixel_nth [OF assms(1) nb b assms(3)]
    using m by (simp add: rasterValue_def)
  have r2: "rasterPixel calc gt nodata year (isLeapYear year) numBands x y cbx cby demBlock i ob !
          ((2 * k) * (cbx * cby) + i) =
        calcSunrise calc lat lon (float_value (demBlock i)) year
          (fst (yearDates (isLeapYear year) ! k)) (snd (yearDates (isLeapYear year) ! k)) \<and>
        rasterPixel calc gt nodata year (isLeapYear year) numBands x y cbx cby demBlock i ob !
          ((2 * k + 1) * (cbx * cby) + i) =
        calcSunset calc lat lon (float_value (demBlock i)) year
          (fst (yearDates (isLeapYear year) ! k)) (snd (yearDates (isLeapYear year) ! k))"
    if m: "\<not> (isnan (demBlock i) \<or> feq (demBlock i) nodata)" and k: "k < spec_daysInYear year" for k
  proof -
    have b0: "2 * k < numBands" and b1: "2 * k + 1 < numBands"
      using k nb by (simp_all add: length_yearDates_spec)
    show ?thesis
      unfolding rasterPixel_nth [OF assms(1) nb b0 assms(3)] rasterPixel_nth [OF assms(1) nb b1 assms(3)]
      using m assms(4) by (simp add: rasterValue_def Let_def)
  qed
  from s1 s2 r1 r2 show ?thesis by blast
qed

lemma first_date: "yearDates isLeap ! 0 = (1, 1)"
  by (simp add: yearDates_def upto_1_12 daysInMonth_def upto_rec1 [of 1 31])

lemma leap_2024: "isLeapYear 2024"
  by (simp add: isLeapYear_gregorian)

lemma solstice_date: "yearDates True ! 172 = (6, 21)"
  by code_simp

lemma origin_geo:
  "pixelToGeo [0, 0x3FF0000000000000, 0, 0, 0, 0xBFF0000000000000] 0 0 = (0, 0)"
  by (simp add: pixelToGeo_def double_val_def)

lemma polar_geo:
  "pixelToGeo [0, 0x3FF0000000000000, 0, 0x4056400000000000, 0, 0xBFF0000000000000] 0 0 = (0, 89)"
  by (simp add: pixelToGeo_def double_val_def Let_def)

theorem masking_policy_witness:
  "streamPixel (solarCalculator 1) [0, 0x3FF0000000000000, 0, 0, 0, 0xBFF0000000000000] 1
     (Val (- 9999)) (\<lambda>i. Val 0) 2024 6 21 0 ([7], [7]) = ([- 1], [- 1]) \<and>
   rasterPixel (solarCalculator 1) [0, 0x3FF0000000000000, 0, 0, 0, 0xBFF0000000000000]
     (Val (- 9999)) 2024 (isLeapYear 2024) 732 0 0 1 1 (\<lambda>i. Val 0) 0 (replicate (512 * 512 * 732) 0) ! 0 =
     calculateSunrise \<lparr>timezoneOffset = 1\<rparr> 0 0 0 2024 1 1 \<and>
   rasterPixel (solarCalculator 1) [0, 0x3FF0000000000000, 0, 0, 0, 0xBFF0000000000000]
     (Val (- 9999)) 2024 (isLeapYear 2024) 732 0 0 1 1 (\<lambda>i. Val (- 9999)) 0
     (replicate (512 * 512 * 732) 0) ! 0 = - 9999"
proof -
  let ?gt = "[0, 0x3FF0000000000000, 0, 0, 0, 0xBFF0000000000000] :: 64 word list"
  have g1: "pixelToGeo ?gt (int (0 + 0 mod 1)) (int (0 + 0 div 1)) = (0, 0)"
    using origin_geo by simp
  have g2: "pixelToGeo ?gt (int (0 mod 1)) (int (0 div 1)) = (0, 0)"
    using origin_geo by simp
  have a: "(0::nat) < 1 * 1" by simp
  have b: "(732::nat) = (if isLeapYear 2024 then 366 else 365) * 2" by (simp add: leap_2024)
  have c: "732 * (1 * 1) \<le> length (replicate (512 * 512 * 732) (0::real))" by simp
  have d: "(0::nat) < spec_daysInYear 2024" by (simp add: spec_daysInYear_def)
  note th = masking_policy [OF a b c g1 g2, of _ "Val (- 9999)" _ 6 21 "[7]" "[7]"]
  have s: "streamPixel (solarCalculator 1) ?gt 1 (Val (- 9999)) (\<lambda>i. Val 0) 2024 6 21 0 ([7], [7]) =
           ([- 1], [- 1])"
    using th [where demData = "\<lambda>i. Val 0", THEN conjunct1] by simp
  have r: "rasterPixel (solarCalculator 1) ?gt (Val (- 9999)) 2024 (isLeapYear 2024) 732 0 0 1 1
             (\<lambda>i. Val 0) 0 (replicate (512 * 512 * 732) 0) ! 0 =
           calculateSunrise \<lparr>timezoneOffset = 1\<rparr> 0 0 0 2024 1 1"
    using th [where demBlock = "\<lambda>i. Val 0" and calc = "solarCalculator 1",
              THEN conjunct2, THEN conjunct2, THEN conjunct2] d
    by (auto simp: first_date solarCalculator_def dest!: spec [of _ 0])
  have n: "rasterPixel (solarCalculator 1) ?gt (Val (- 9999)) 2024 (isLeapYear 2024) 732 0 0 1 1
             (\<lambda>i. Val (- 9999)) 0 (replicate (512 * 512 * 732) 0) ! 0 = - 9999"
    using th [where demBlock = "\<lambda>i. Val (- 9999)" and calc = "solarCalculator 1",
              THEN conjunct2, THEN conjunct2, THEN conjunct1]
    by (auto simp: NODATA_VALUE_def dest!: spec [of _ 0])
  from s r n show ?thesis by blast
qed

text \<open>
  Claim C10.  The raster no-data value and the calculator's no-event value are the same
  number, \<open>-9999\<close>.  So in the raster output buffer a masked pixel (elevation NaN or
  equal to the no-data value) and a valid pixel (elevation \<open>\<ge> 0\<close>, quotients defined) for
  which the sun does not rise or does not set on day \<open>k + 1\<close> hold the same value in
  bands \<open>2 * k\<close> and \<open>2 * k + 1\<close>: the no-data value.
\<close>

theorem nodata_equals_no_event:
  assumes "i < cbx * cby"
    and "numBands = (if isLeapYear year then 366 else 365) * 2"
    and "numBands * (cbx * cby) \<le> length ob"
    and "k < spec_daysInYear year"
    and "yearDates (isLeapYear year) ! k = (m, d)"
    and "pixelToGeo gt (int (x + i mod cbx)) (int (y + i div cbx)) = (lon, lat)"
    and "demBlock i = Val e" "0 \<le> e" "\<not> feq (Val e) nodata"
    and "quotients_defined lat (julianCentury (julianDay year m d))"
    and "spec_cosHA lat (sunDeclination (julianCentury (julianDay year m d))) e > 1 \<or>
         spec_cosHA lat (sunDeclination (julianCentury (julianDay year m d))) e < - 1"
    and "isnan (maskedBlock i) \<or> feq (maskedBlock i) nodata"
  shows "NODATA_VALUE = - 9999 \<and>
         rasterPixel (solarCalculator tz) gt nodata year (isLeapYear year) numBands x y cbx cby
           demBlock i ob ! ((2 * k) * (cbx * cby) + i) = NODATA_VALUE \<and>
         rasterPixel (solarCalculator tz) gt nodata year (isLeapYear year) numBands x y cbx cby
           demBlock i ob ! ((2 * k + 1) * (cbx * cby) + i) = NODATA_VALUE \<and>
         rasterPixel (solarCalculator tz) gt nodata year (isLeapYear year) numBands x y cbx cby
           maskedBlock i ob ! ((2 * k) * (cbx * cby) + i) = NODATA_VALUE \<and>
         rasterPixel (solarCalculator tz) gt nodata year (isLeapYear year) numBands x y cbx cby
           maskedBlock i ob ! ((2 * k + 1) * (cbx * cby) + i) = NODATA_VALUE"
proof -
  have nb: "numBands = 2 * length (yearDates (isLeapYear year))"
    using assms(2) by (simp add: length_yearDates)
  have b0: "2 * k < numBands" and b1: "2 * k + 1 < numBands"
    using assms(4) nb by (simp_all add: length_yearDates_spec)
  have neg: "hourAngleSunrise lat (sunDeclination (julianCentury (julianDay year m d))) e < 0"
    using assms(11) by (simp add: hourAngleSunrise_neg_iff)
  have rise: "calculateSunrise \<lparr>timezoneOffset = tz\<rparr> lat lon e year m d = - 9999"
    unfolding calculateSunrise_def by (rule calculateSolarTime_no_event [OF neg])
  have set: "calculateSunset \<lparr>timezoneOffset = tz\<rparr> lat lon e year m d = - 9999"
    unfolding calculateSunset_def by (rule calculateSolarTime_no_event [OF neg])
  have unmasked: "\<not> (isnan (demBlock i) \<or> feq (demBlock i) nodata)"
    using assms(7,9) by simp
  have v0: "rasterValue (solarCalculator tz) gt nodata year (isLeapYear year) x y cbx demBlock i (2 * k) =
            NODATA_VALUE"
    using unmasked assms(5,6,7) rise
    by (simp add: rasterValue_def Let_def solarCalculator_def NODATA_VALUE_def)
  have v1: "rasterValue (solarCalculator tz) gt nodata year (isLeapYear year) x y cbx demBlock i (2 * k + 1) =
            NODATA_VALUE"
    using unmasked assms(5,6,7) set
    by (simp add: rasterValue_def Let_def solarCalculator_def NODATA_VALUE_def)
  have w: "rasterValue (solarCalculator tz) gt nodata year (isLeapYear year) x y cbx maskedBlock i b =
           NODATA_VALUE" for b
    using assms(12) by (simp add: rasterValue_def)
  have v1': "rasterValue (solarCalculator tz) gt nodata year (isLeapYear year) x y cbx demBlock i (Suc (2 * k)) =
            NODATA_VALUE"
    using v1 by simp
  show ?thesis
    unfolding rasterPixel_nth [OF assms(1) nb b0 assms(3)] rasterPixel_nth [OF assms(1) nb b1 assms(3)]
    by (simp add: v0 v1' w NODATA_VALUE_def)
qed

theorem nodata_equals_no_event_witness:
  "quotients_defined 89 (julianCentury (julianDay 2024 6 21)) \<and>
   spec_cosHA 89 (sunDeclination (julianCentury (julianDay 2024 6 21))) 100 < - 1 \<and>
   rasterPixel (solarCalculator 1)
     [0, 0x3FF0000000000000, 0, 0x4056400000000000, 0, 0xBFF0000000000000]
     (Val (- 9999)) 2024 (isLeapYear 2024) 732 0 0 1 1 (\<lambda>i. Val 100) 0
     (replicate (512 * 512 * 732) 0) ! 344 = - 9999 \<and>
   rasterPixel (solarCalculator 1)
     [0, 0x3FF0000000000000, 0, 0x4056400000000000, 0, 0xBFF0000000000000]
     (Val (- 9999)) 2024 (isLeapYear 2024) 732 0 0 1 1 (\<lambda>i. Val (- 9999)) 0
     (replicate (512 * 512 * 732) 0) ! 344 = - 9999"
proof -
  let ?gt = "[0, 0x3FF0000000000000, 0, 0x4056400000000000, 0, 0xBFF0000000000000] :: 64 word list"
  have g: "pixelToGeo ?gt (int (0 + 0 mod 1)) (int (0 + 0 div 1)) = (0, 89)"
    using polar_geo by simp
  have a: "(0::nat) < 1 * 1" by simp
  have b: "(732::nat) = (if isLeapYear 2024 then 366 else 365) * 2" by (simp add: leap_2024)
  have c: "732 * (1 * 1) \<le> length (replicate (512 * 512 * 732) (0::real))" by simp
  have d: "(172::nat) < spec_daysInYear 2024" by (simp add: spec_daysInYear_def)
  have e: "yearDates (isLeapYear 2024) ! 172 = (6, 21)"
    using solstice_date leap_2024 by simp
  have f: "(\<lambda>i::nat. Val 100) 0 = Val 100" "(0::real) \<le> 100" "\<not> feq (Val 100) (Val (- 9999))"
    by simp_all
  have h: "isnan ((\<lambda>i::nat. Val (- 9999)) 0) \<or> feq ((\<lambda>i::nat. Val (- 9999)) 0) (Val (- 9999))"
    by simp
  have q: "quotients_defined 89 (julianCentury (julianDay 2024 6 21))"
    using cos_89 by (intro solstice_quotients) simp
  from nodata_equals_no_event [OF a b c d e g f q disjI2 [OF midnight_sun] h, of 1] midnight_sun q
  show ?thesis by (simp add: NODATA_VALUE_def)
qed

end
